theory Spec2Isabelle
  imports Complex_Main "HOL-Library.Multiset"
begin

section \<open>JavaScript values\<close>

text \<open>
  The formatting functions of the number-format script receive arbitrary JavaScript
  values and work on Numbers.  A Number is an IEEE double: a finite value (every finite
  double is a rational), NaN or one of the infinities.  The model keeps one zero: the only
  place the script could see a negative zero is the result of \<open>parseFloat\<close>, and
  \<open>parseFloat(x) || 0\<close> replaces it by \<open>0\<close> at once.  A string is the sequence of
  its UTF-8 bytes.
\<close>

datatype jsnum = NaN | PInf | NInf | Fin rat

datatype jsval = JUndefined | JNull | JBool bool | JNum jsnum | JStr string

datatype exn = RangeError

subsection \<open>Rounding to a double\<close>

fun bitlen :: "nat \<Rightarrow> nat" where
  "bitlen n = (if n = 0 then 0 else Suc (bitlen (n div 2)))"

declare bitlen.simps [simp del]

definition pow2 :: "int \<Rightarrow> rat" where
  "pow2 e = (if 0 \<le> e then 2 ^ nat e else 1 / 2 ^ nat (- e))"

definition pow10 :: "int \<Rightarrow> rat" where
  "pow10 e = (if 0 \<le> e then 10 ^ nat e else 1 / 10 ^ nat (- e))"

definition binexp :: "rat \<Rightarrow> int" where
  \<comment> \<open>the binary exponent of a positive value: \<open>2 ^ e \<le> q < 2 ^ (e + 1)\<close>\<close>
  "binexp q =
     (if 1 \<le> q then int (bitlen (nat \<lfloor>q\<rfloor>)) - 1
      else (let j = int (bitlen (nat \<lfloor>1 / q\<rfloor>)) - 1
            in if q = pow2 (- j) then - j else - j - 1))"

definition round_half_even :: "rat \<Rightarrow> int" where
  "round_half_even x =
     (let f = \<lfloor>x\<rfloor>; d = x - of_int f
      in if d < 1 / 2 then f else if 1 / 2 < d then f + 1
         else if even f then f else f + 1)"

definition round_pos :: "rat \<Rightarrow> jsnum" where
  \<comment> \<open>a positive real to the nearest double, ties to the even significand; 53 bits of
      significand, the least exponent of a subnormal is \<open>-1074\<close>, overflow gives infinity\<close>
  "round_pos q =
     (let p = max (binexp q - 52) (- 1074);
          r = of_int (round_half_even (q / pow2 p)) * pow2 p
      in if 2 ^ 1024 \<le> r then PInf else Fin r)"

definition neg :: "jsnum \<Rightarrow> jsnum" where
  "neg x = (case x of NaN \<Rightarrow> NaN | PInf \<Rightarrow> NInf | NInf \<Rightarrow> PInf | Fin q \<Rightarrow> Fin (- q))"

definition round_to_double :: "rat \<Rightarrow> jsnum" where
  "round_to_double q =
     (if q = 0 then Fin 0 else if 0 < q then round_pos q else neg (round_pos (- q)))"

definition num_lit :: "rat \<Rightarrow> jsnum" where
  \<comment> \<open>the Number that a decimal literal of the source text denotes\<close>
  "num_lit q = round_to_double q"

subsection \<open>Comparison and arithmetic of Numbers\<close>

definition num_lt :: "jsnum \<Rightarrow> jsnum \<Rightarrow> bool" where
  \<comment> \<open>\<open>x < y\<close>: false when either side is NaN\<close>
  "num_lt x y =
     (case (x, y) of
        (NaN, _) \<Rightarrow> False
      | (_, NaN) \<Rightarrow> False
      | (PInf, _) \<Rightarrow> False
      | (_, NInf) \<Rightarrow> False
      | (NInf, _) \<Rightarrow> True
      | (_, PInf) \<Rightarrow> True
      | (Fin a, Fin b) \<Rightarrow> a < b)"

definition num_ge :: "jsnum \<Rightarrow> jsnum \<Rightarrow> bool" where
  \<comment> \<open>\<open>x >= y\<close>: false when either side is NaN\<close>
  "num_ge x y =
     (case (x, y) of
        (NaN, _) \<Rightarrow> False
      | (_, NaN) \<Rightarrow> False
      | (PInf, _) \<Rightarrow> True
      | (_, NInf) \<Rightarrow> True
      | (NInf, _) \<Rightarrow> False
      | (_, PInf) \<Rightarrow> False
      | (Fin a, Fin b) \<Rightarrow> b \<le> a)"

definition num_mul_pos :: "jsnum \<Rightarrow> rat \<Rightarrow> jsnum" where
  \<comment> \<open>\<open>x * c\<close> for a positive finite constant \<open>c\<close>\<close>
  "num_mul_pos x c = (case x of Fin q \<Rightarrow> round_to_double (q * c) | _ \<Rightarrow> x)"

definition num_div_pos :: "jsnum \<Rightarrow> rat \<Rightarrow> jsnum" where
  \<comment> \<open>\<open>x / c\<close> for a positive finite constant \<open>c\<close>\<close>
  "num_div_pos x c = (case x of Fin q \<Rightarrow> round_to_double (q / c) | _ \<Rightarrow> x)"

definition or_zero :: "jsnum \<Rightarrow> jsnum" where
  \<comment> \<open>\<open>x || 0\<close> on a Number: NaN and zero are falsy\<close>
  "or_zero x = (case x of NaN \<Rightarrow> Fin 0 | _ \<Rightarrow> x)"

subsection \<open>Decimal digits\<close>

definition is_digit :: "char \<Rightarrow> bool" where
  "is_digit c = (c \<in> set ''0123456789'')"

definition digit_char :: "nat \<Rightarrow> char" where
  "digit_char d = ''0123456789'' ! d"

definition digit_val :: "char \<Rightarrow> nat" where
  "digit_val c = of_char c - 48"

definition digits_val :: "string \<Rightarrow> nat" where
  "digits_val ds = foldl (\<lambda>a c. 10 * a + digit_val c) 0 ds"

fun digits10 :: "nat \<Rightarrow> string" where
  "digits10 n = (if n < 10 then [digit_char n] else digits10 (n div 10) @ [digit_char (n mod 10)])"

declare digits10.simps [simp del]

section \<open>The platform's primitives\<close>

text \<open>
  The script calls these primitives of the host: \<open>parseFloat\<close> and \<open>parseInt\<close>
  (ECMA-262), \<open>Number.prototype.toLocaleString\<close> with the locale \<open>es-CO\<close>
  (ECMA-402 and the locale data: grouping separator \<open>.\<close>, decimal separator \<open>,\<close>,
  groups of three from the first thousand on, as the script's own examples
  \<open>"100.000"\<close> and \<open>"1.234,56"\<close> show), \<open>toFixed\<close> and \<open>toString\<close>.
  They are modelled after these standards, and \<open>toLocaleString\<close> after what the engines
  do where they differ from the letter of ECMA-402: it rounds the shortest decimal of
  the double (\<open>1.005\<close> with two digits is \<open>1,01\<close>), where \<open>toFixed\<close> rounds its exact
  value (\<open>1.00\<close>).
\<close>

subsection \<open>parseFloat and parseInt\<close>

definition is_ascii_space :: "char \<Rightarrow> bool" where
  \<comment> \<open>TAB, LF, VT, FF, CR, SP\<close>
  "is_ascii_space c = (c \<in> set [CHR 0x09, CHR 0x0A, CHR 0x0B, CHR 0x0C, CHR 0x0D, CHR 0x20])"

definition is_space3 :: "char \<Rightarrow> char \<Rightarrow> char \<Rightarrow> bool" where
  \<comment> \<open>the white space and line terminators of three bytes: U+1680, U+2000 to U+200A,
      U+2028, U+2029, U+202F, U+205F, U+3000, U+FEFF\<close>
  "is_space3 a b c =
     ((a = CHR 0xE1 \<and> b = CHR 0x9A \<and> c = CHR 0x80)
      \<or> (a = CHR 0xE2 \<and> b = CHR 0x80
          \<and> c \<in> set [CHR 0x80, CHR 0x81, CHR 0x82, CHR 0x83, CHR 0x84, CHR 0x85, CHR 0x86,
                      CHR 0x87, CHR 0x88, CHR 0x89, CHR 0x8A, CHR 0xA8, CHR 0xA9, CHR 0xAF])
      \<or> (a = CHR 0xE2 \<and> b = CHR 0x81 \<and> c = CHR 0x9F)
      \<or> (a = CHR 0xE3 \<and> b = CHR 0x80 \<and> c = CHR 0x80)
      \<or> (a = CHR 0xEF \<and> b = CHR 0xBB \<and> c = CHR 0xBF))"

fun trim_start :: "string \<Rightarrow> string" where
  \<comment> \<open>the string without its leading white space and line terminators (U+00A0 is the
      two bytes \<open>C2 A0\<close>)\<close>
  "trim_start [] = []"
| "trim_start (a # r) =
     (if is_ascii_space a then trim_start r
      else (case r of
              [] \<Rightarrow> a # r
            | b # r' \<Rightarrow>
                if a = CHR 0xC2 \<and> b = CHR 0xA0 then trim_start r'
                else (case r' of
                        [] \<Rightarrow> a # r
                      | c # r'' \<Rightarrow> if is_space3 a b c then trim_start r'' else a # r)))"

datatype literal = Infinity_lit | Decimal_lit string string int

definition scan_exponent :: "string \<Rightarrow> int \<times> string" where
  \<comment> \<open>an ExponentPart at the head of the input (its value and the rest), or exponent 0 and
      the input untouched when there is none\<close>
  "scan_exponent s =
     (case s of
        [] \<Rightarrow> (0, s)
      | c # r \<Rightarrow>
          if c = CHR ''e'' \<or> c = CHR ''E'' then
            (let sg = (case r of [] \<Rightarrow> []
                       | x # _ \<Rightarrow> if x = CHR ''+'' \<or> x = CHR ''-'' then [x] else []);
                 r' = drop (length sg) r;
                 ds = takeWhile is_digit r'
             in if ds = [] then (0, s)
                else (if sg = ''-'' then - int (digits_val ds) else int (digits_val ds),
                      dropWhile is_digit r'))
          else (0, s))"

definition scan_unsigned :: "string \<Rightarrow> (literal \<times> string) option" where
  \<comment> \<open>the longest prefix that is a StrUnsignedDecimalLiteral, and the rest\<close>
  "scan_unsigned s =
     (if take 8 s = ''Infinity'' then Some (Infinity_lit, drop 8 s)
      else
        (let ip = takeWhile is_digit s;
             r1 = dropWhile is_digit s;
             dot = (case r1 of [] \<Rightarrow> False
                    | c # r \<Rightarrow> c = CHR ''.'' \<and> (ip \<noteq> [] \<or> takeWhile is_digit r \<noteq> []));
             fp = (if dot then takeWhile is_digit (tl r1) else []);
             r2 = (if dot then dropWhile is_digit (tl r1) else r1)
         in if ip = [] \<and> fp = [] then None
            else (case scan_exponent r2 of (ex, r3) \<Rightarrow> Some (Decimal_lit ip fp ex, r3))))"

definition scan_literal :: "string \<Rightarrow> (bool \<times> literal \<times> string) option" where
  \<comment> \<open>the longest prefix that is a StrDecimalLiteral: whether it is negative, the literal,
      the rest\<close>
  "scan_literal s =
     (case s of
        [] \<Rightarrow> None
      | c # r \<Rightarrow>
          if c = CHR ''-'' then map_option (Pair True) (scan_unsigned r)
          else if c = CHR ''+'' then map_option (Pair False) (scan_unsigned r)
          else map_option (Pair False) (scan_unsigned s))"

definition literal_value :: "bool \<Rightarrow> literal \<Rightarrow> jsnum" where
  "literal_value negative l =
     (let v = (case l of
                 Infinity_lit \<Rightarrow> PInf
               | Decimal_lit ip fp ex \<Rightarrow>
                   round_to_double (of_nat (digits_val (ip @ fp)) * pow10 (ex - int (length fp))))
      in if negative then neg v else v)"

definition parse_float_text :: "string \<Rightarrow> jsnum" where
  "parse_float_text s =
     (case scan_literal (trim_start s) of
        None \<Rightarrow> NaN
      | Some (negative, l, _) \<Rightarrow> literal_value negative l)"

definition parseFloat :: "jsval \<Rightarrow> jsnum" where
  \<comment> \<open>\<open>parseFloat\<close> reads the text of its argument.  The text of a Number is the shortest
      decimal that reads back as the same Number, so a Number comes back as it is.\<close>
  "parseFloat v =
     (case v of
        JUndefined \<Rightarrow> parse_float_text ''undefined''
      | JNull \<Rightarrow> parse_float_text ''null''
      | JBool b \<Rightarrow> parse_float_text (if b then ''true'' else ''false'')
      | JNum n \<Rightarrow> n
      | JStr s \<Rightarrow> parse_float_text s)"

definition is_hex_digit :: "char \<Rightarrow> bool" where
  "is_hex_digit c = (c \<in> set ''0123456789abcdefABCDEF'')"

definition hex_digit_val :: "char \<Rightarrow> nat" where
  "hex_digit_val c =
     (if is_digit c then digit_val c
      else if c \<in> set ''abcdef'' then of_char c - 87 else of_char c - 55)"

definition hex_digits_val :: "string \<Rightarrow> nat" where
  "hex_digits_val ds = foldl (\<lambda>a c. 16 * a + hex_digit_val c) 0 ds"

definition parse_int_text :: "string \<Rightarrow> jsnum" where
  \<comment> \<open>\<open>parseInt\<close> without a radix: radix 16 after \<open>0x\<close>, 10 otherwise\<close>
  "parse_int_text s =
     (let t = trim_start s;
          negative = (take 1 t = ''-'');
          u = (if take 1 t = ''-'' \<or> take 1 t = ''+'' then drop 1 t else t);
          hex = (take 2 u = ''0x'' \<or> take 2 u = ''0X'');
          z = (if hex then takeWhile is_hex_digit (drop 2 u) else takeWhile is_digit u)
      in if z = [] then NaN
         else (let v = round_to_double (of_nat (if hex then hex_digits_val z else digits_val z))
               in if negative then neg v else v))"

definition parseInt :: "string option \<Rightarrow> jsnum" where
  \<comment> \<open>on the result of \<open>getAttribute\<close>: a string, or null (read as the text \<open>null\<close>)\<close>
  "parseInt a = (case a of None \<Rightarrow> parse_int_text ''null'' | Some s \<Rightarrow> parse_int_text s)"

subsection \<open>The shortest decimal of a double\<close>

definition decexp :: "rat \<Rightarrow> int" where
  \<comment> \<open>the decimal exponent of a positive value: \<open>10 ^ (n - 1) \<le> x < 10 ^ n\<close>\<close>
  "decexp x =
     (if 1 \<le> x then int (length (digits10 (nat \<lfloor>x\<rfloor>)))
      else (let j = int (length (digits10 (nat \<lfloor>1 / x\<rfloor>)))
            in if x = pow10 (1 - j) then 2 - j else 1 - j))"

function shortest_digits :: "nat \<Rightarrow> rat \<Rightarrow> int \<Rightarrow> nat \<times> int" where
  \<comment> \<open>the search for the fewest digits, from \<open>k\<close> digits on: the two \<open>k\<close>-digit
      decimals around \<open>x\<close> are tried, the nearer first; 17 digits always suffice for a
      double\<close>
  "shortest_digits k x n =
     (let u = pow10 (n - int k);
          lo = \<lfloor>x / u\<rfloor>;
          hi = lo + 1;
          lo_ok = (round_to_double (of_int lo * u) = Fin x);
          hi_ok = (round_to_double (of_int hi * u) = Fin x);
          dlo = x - of_int lo * u;
          dhi = of_int hi * u - x
      in if lo_ok \<and> (\<not> hi_ok \<or> dlo < dhi \<or> (dlo = dhi \<and> even lo)) then (nat lo, n)
         else if hi_ok then (if hi = 10 ^ k then (10 ^ (k - 1), n + 1) else (nat hi, n))
         else if 17 \<le> k then (nat lo, n)
         else shortest_digits (k + 1) x n)"
  by pat_completeness auto
termination
  by (relation "measure (\<lambda>(k, x, n). 17 - k)") auto

declare shortest_digits.simps [simp del]

definition shortest_decimal :: "rat \<Rightarrow> rat" where
  \<comment> \<open>the value of the shortest decimal that reads back as the non-negative double\<close>
  "shortest_decimal x =
     (if x = 0 then 0
      else (case shortest_digits 1 x (decexp x) of
              (s, n) \<Rightarrow> of_nat s * pow10 (n - int (length (digits10 s)))))"

subsection \<open>toLocaleString for es-CO\<close>

fun group_thousands :: "string \<Rightarrow> string" where
  "group_thousands s =
     (if length s \<le> 3 then s
      else group_thousands (take (length s - 3) s) @ CHR ''.'' # drop (length s - 3) s)"

declare group_thousands.simps [simp del]

fun strip_zeros :: "nat \<Rightarrow> string \<Rightarrow> string" where
  "strip_zeros 0 b = b"
| "strip_zeros (Suc k) b =
     (if b \<noteq> [] \<and> last b = CHR ''0'' then strip_zeros k (butlast b) else b)"

definition to_raw_fixed :: "rat \<Rightarrow> nat \<Rightarrow> string \<times> string" where
  \<comment> \<open>a non-negative value rounded to \<open>f\<close> fraction digits, ties away from zero: the
      integer digits and the \<open>f\<close> fraction digits\<close>
  "to_raw_fixed x f =
     (let n = nat \<lfloor>x * 10 ^ f + 1 / 2\<rfloor>;
          m = digits10 n;
          m' = (if length m \<le> f then replicate (f + 1 - length m) (CHR ''0'') @ m else m);
          k = length m'
      in (take (k - f) m', drop (k - f) m'))"

definition default_number_option :: "jsnum \<Rightarrow> exn + nat" where
  \<comment> \<open>a fraction-digits option that is present: a Number from 0 to 100, floored\<close>
  "default_number_option v =
     (case v of
        Fin q \<Rightarrow> if q < 0 \<or> 100 < q then Inl RangeError else Inr (nat \<lfloor>q\<rfloor>)
      | _ \<Rightarrow> Inl RangeError)"

definition infinity_sign :: string where
  \<comment> \<open>U+221E, in UTF-8\<close>
  "infinity_sign = [CHR 0xE2, CHR 0x88, CHR 0x9E]"

definition format_esCO :: "jsnum \<Rightarrow> nat \<Rightarrow> nat \<Rightarrow> string" where
  \<comment> \<open>the engines round the shortest decimal of the double, ties away from zero\<close>
  "format_esCO x mnfd mxfd =
     (case x of
        NaN \<Rightarrow> ''NaN''
      | PInf \<Rightarrow> infinity_sign
      | NInf \<Rightarrow> CHR ''-'' # infinity_sign
      | Fin q \<Rightarrow>
          (case to_raw_fixed (shortest_decimal \<bar>q\<bar>) mxfd of
             (a, b) \<Rightarrow>
               (let b' = strip_zeros (mxfd - mnfd) b
                in (if q < 0 then ''-'' else []) @ group_thousands a
                   @ (if b' = [] then [] else CHR '','' # b'))))"

definition toLocaleString_esCO :: "jsnum \<Rightarrow> jsnum \<Rightarrow> jsnum \<Rightarrow> exn + string" where
  \<comment> \<open>\<open>x.toLocaleString('es-CO', {minimumFractionDigits, maximumFractionDigits})\<close>\<close>
  "toLocaleString_esCO x minimumFractionDigits maximumFractionDigits =
     (case default_number_option minimumFractionDigits of
        Inl e \<Rightarrow> Inl e
      | Inr mnfd \<Rightarrow>
          (case default_number_option maximumFractionDigits of
             Inl e \<Rightarrow> Inl e
           | Inr mxfd \<Rightarrow>
               if mxfd < mnfd then Inl RangeError else Inr (format_esCO x mnfd mxfd)))"

subsection \<open>toString and toFixed\<close>

definition positive_toString :: "rat \<Rightarrow> string" where
  \<comment> \<open>the text of a positive double: the fewest digits \<open>s\<close> (at most 17) and the exponent
      \<open>n\<close> with \<open>s * 10 ^ (n - k)\<close> reading back as the same double, laid out as ECMA-262
      Number::toString does\<close>
  "positive_toString x =
     (case shortest_digits 1 x (decexp x) of
        (s, n) \<Rightarrow>
          (let ds = digits10 s; k = int (length ds)
           in if k \<le> n \<and> n \<le> 21 then ds @ replicate (nat (n - k)) (CHR ''0'')
              else if 0 < n \<and> n \<le> 21 then take (nat n) ds @ CHR ''.'' # drop (nat n) ds
              else if - 6 < n \<and> n \<le> 0 then ''0.'' @ replicate (nat (- n)) (CHR ''0'') @ ds
              else (let e = n - 1;
                        es = (if e < 0 then CHR ''-'' else CHR ''+'') # digits10 (nat \<bar>e\<bar>)
                    in if k = 1 then ds @ CHR ''e'' # es
                       else take 1 ds @ CHR ''.'' # drop 1 ds @ CHR ''e'' # es)))"

definition number_toString :: "jsnum \<Rightarrow> string" where
  "number_toString x =
     (case x of
        NaN \<Rightarrow> ''NaN''
      | PInf \<Rightarrow> ''Infinity''
      | NInf \<Rightarrow> ''-Infinity''
      | Fin q \<Rightarrow>
          if q = 0 then ''0''
          else (if q < 0 then ''-'' else []) @ positive_toString \<bar>q\<bar>)"

definition to_fixed :: "jsnum \<Rightarrow> nat \<Rightarrow> string" where
  \<comment> \<open>\<open>x.toFixed(f)\<close> for \<open>f\<close> from 0 to 100\<close>
  "to_fixed x f =
     (case x of
        Fin q \<Rightarrow>
          (let s = (if q < 0 then ''-'' else []); y = \<bar>q\<bar>
           in if 10 ^ 21 \<le> y then s @ number_toString (Fin y)
              else (case to_raw_fixed y f of
                      (a, b) \<Rightarrow> s @ a @ (if f = 0 then [] else CHR ''.'' # b)))
      | _ \<Rightarrow> number_toString x)"

section \<open>The formatting functions\<close>

text \<open>
  A function's result is \<open>Inr\<close> the string it returns, or \<open>Inl\<close> the exception that
  leaves it.  An optional parameter is \<open>None\<close> when the caller leaves it out, and then
  takes the default of the function's header.  \<open>decimales\<close> is a Number, as the
  functions' documentation types it.
\<close>

definition try_catch :: "exn + 'a \<Rightarrow> (exn \<Rightarrow> exn + 'a) \<Rightarrow> exn + 'a" where
  "try_catch body handler = (case body of Inl e \<Rightarrow> handler e | Inr v \<Rightarrow> Inr v)"

definition formatoNumero :: "jsval \<Rightarrow> jsnum option \<Rightarrow> exn + string" where
  "formatoNumero numero0 decimales0 =
     (let decimales = (case decimales0 of None \<Rightarrow> Fin 0 | Some d \<Rightarrow> d)
      in try_catch
           (let numero = or_zero (parseFloat numero0)
            in if num_lt (Fin 0) decimales
               then toLocaleString_esCO numero decimales decimales
               else toLocaleString_esCO numero (Fin 0) (Fin 0))
           (\<lambda>e. Inr ''0''))"

definition formatoMoneda :: "jsval \<Rightarrow> string option \<Rightarrow> jsnum option \<Rightarrow> exn + string" where
  "formatoMoneda numero simbolo0 decimales0 =
     (let simbolo = (case simbolo0 of None \<Rightarrow> ''$'' | Some s \<Rightarrow> s);
          decimales = (case decimales0 of None \<Rightarrow> Fin 0 | Some d \<Rightarrow> d)
      in case formatoNumero numero (Some decimales) of
           Inl e \<Rightarrow> Inl e
         | Inr numeroFormateado \<Rightarrow> Inr (simbolo @ numeroFormateado))"

definition formatoPorcentaje :: "jsval \<Rightarrow> jsnum option \<Rightarrow> exn + string" where
  "formatoPorcentaje numero0 decimales0 =
     (let decimales = (case decimales0 of None \<Rightarrow> Fin 1 | Some d \<Rightarrow> d)
      in try_catch
           (let numero = or_zero (parseFloat numero0);
                porcentaje = (if num_lt numero (Fin 1) then num_mul_pos numero 100 else numero)
            in case toLocaleString_esCO porcentaje decimales decimales of
                 Inl e \<Rightarrow> Inl e
               | Inr s \<Rightarrow> Inr (s @ ''%''))
           (\<lambda>e. Inr ''0%''))"

definition formatoCompacto :: "jsval \<Rightarrow> exn + string" where
  "formatoCompacto numero0 =
     try_catch
       (let numero = or_zero (parseFloat numero0)
        in if num_ge numero (Fin 1000000000)
           then Inr (to_fixed (num_div_pos numero 1000000000) 1 @ ''B'')
           else if num_ge numero (Fin 1000000)
           then Inr (to_fixed (num_div_pos numero 1000000) 1 @ ''M'')
           else if num_ge numero (Fin 1000)
           then Inr (to_fixed (num_div_pos numero 1000) 1 @ ''K'')
           else Inr (number_toString numero))
       (\<lambda>e. Inr ''0'')"

section \<open>The declarative pass\<close>

text \<open>
  The callback of the pass reads two things of its element, attributes and text content,
  and assigns the text content.  The record \<open>element\<close> is the element as the callback
  sees it.
\<close>

record element =
  attributes :: "(string \<times> string) list"
  textContent :: string

definition getAttribute :: "element \<Rightarrow> string \<Rightarrow> string option" where
  \<comment> \<open>\<open>None\<close> is the \<open>null\<close> of a missing attribute\<close>
  "getAttribute elemento name = map_of (attributes elemento) name"

definition texto_formateado :: "element \<Rightarrow> exn + string option" where
  \<comment> \<open>the \<open>switch\<close> of the callback: the string that the matching case assigns to
      \<open>textContent\<close>, \<open>None\<close> when no case matches\<close>
  "texto_formateado elemento =
     (let formato = getAttribute elemento ''data-format'';
          valor = or_zero (parseFloat (JStr (textContent elemento)));
          decimales = or_zero (parseInt (getAttribute elemento ''data-decimales''))
      in if formato = Some ''numero'' then
           (case formatoNumero (JNum valor) (Some decimales) of
              Inl e \<Rightarrow> Inl e
            | Inr s \<Rightarrow> Inr (Some s))
         else if formato = Some ''moneda'' then
           (let simbolo = (case getAttribute elemento ''data-simbolo'' of
                             None \<Rightarrow> ''$''
                           | Some s \<Rightarrow> if s = [] then ''$'' else s)
            in case formatoMoneda (JNum valor) (Some simbolo) (Some decimales) of
                 Inl e \<Rightarrow> Inl e
               | Inr s \<Rightarrow> Inr (Some s))
         else if formato = Some ''porcentaje'' then
           (case formatoPorcentaje (JNum valor) (Some decimales) of
              Inl e \<Rightarrow> Inl e
            | Inr s \<Rightarrow> Inr (Some s))
         else if formato = Some ''compacto'' then
           (case formatoCompacto (JNum valor) of
              Inl e \<Rightarrow> Inl e
            | Inr s \<Rightarrow> Inr (Some s))
         else Inr None)"

definition formatear_elemento :: "element \<Rightarrow> exn + element" where
  \<comment> \<open>the callback of \<open>forEach\<close> as its own element shows it: after the assignment the
      text content of the element is the string assigned\<close>
  "formatear_elemento elemento =
     (case texto_formateado elemento of
        Inl e \<Rightarrow> Inl e
      | Inr None \<Rightarrow> Inr elemento
      | Inr (Some s) \<Rightarrow> Inr (elemento\<lparr>textContent := s\<rparr>))"

subsection \<open>The document\<close>

text \<open>
  A node of the document is a text or an element: the identity of the element object,
  its attributes, its child nodes.  The text content of an element is the text of
  everything inside it, and assigning it replaces all the children of the element by one
  text; the elements that were inside keep existing outside the document, and the pass,
  whose list of elements was drawn up before, still visits them.  So the state of the
  pass is the document followed by the subtrees that left it.
\<close>

datatype node = Text string | Element nat "(string \<times> string) list" "node list"

fun text_content :: "node \<Rightarrow> string" where
  "text_content (Text s) = s"
| "text_content (Element i ats cs) = concat (map text_content cs)"

fun elements :: "node \<Rightarrow> node list" where
  \<comment> \<open>the elements of a subtree, itself included, in document order\<close>
  "elements (Text s) = []"
| "elements (Element i ats cs) = Element i ats cs # concat (map elements cs)"

definition ident :: "node \<Rightarrow> nat" where
  \<comment> \<open>the identity of an element (asked of elements only)\<close>
  "ident n = (case n of Element i ats cs \<Rightarrow> i | Text s \<Rightarrow> 0)"

definition ids :: "node \<Rightarrow> nat list" where
  "ids t = map ident (elements t)"

definition is_element :: "node \<Rightarrow> bool" where
  "is_element n = (case n of Element i ats cs \<Rightarrow> True | Text s \<Rightarrow> False)"

fun selected :: "node \<Rightarrow> nat list" where
  \<comment> \<open>\<open>querySelectorAll('[data-format]')\<close>: the elements that have the attribute, in
      document order\<close>
  "selected (Text s) = []"
| "selected (Element i ats cs) =
     (if map_of ats ''data-format'' = None then [] else [i]) @ concat (map selected cs)"

fun set_text :: "nat \<Rightarrow> string \<Rightarrow> node \<Rightarrow> node" where
  \<comment> \<open>the assignment \<open>textContent = s\<close> on the element \<open>i\<close>, in the subtree where it is\<close>
  "set_text i s (Text t) = Text t"
| "set_text i s (Element j ats cs) =
     (if j = i then Element j ats (if s = [] then [] else [Text s])
      else Element j ats (map (set_text i s) cs))"

fun removed :: "nat \<Rightarrow> node \<Rightarrow> node list" where
  \<comment> \<open>the element children that this assignment takes out of the element \<open>i\<close>\<close>
  "removed i (Text t) = []"
| "removed i (Element j ats cs) =
     (if j = i then filter is_element cs else concat (map (removed i) cs))"

definition formatear :: "nat \<Rightarrow> node list \<Rightarrow> exn + node list" where
  \<comment> \<open>the callback on the element \<open>i\<close>\<close>
  "formatear i trees =
     (case find (\<lambda>n. ident n = i) (concat (map elements trees)) of
        Some (Element j ats cs) \<Rightarrow>
          (case texto_formateado
                  \<lparr>attributes = ats, textContent = text_content (Element j ats cs)\<rparr> of
             Inl e \<Rightarrow> Inl e
           | Inr None \<Rightarrow> Inr trees
           | Inr (Some s) \<Rightarrow> Inr (map (set_text i s) trees @ concat (map (removed i) trees)))
      | _ \<Rightarrow> Inr trees)"

fun forEach :: "('a \<Rightarrow> 's \<Rightarrow> exn + 's) \<Rightarrow> 'a list \<Rightarrow> 's \<Rightarrow> exn + 's" where
  "forEach f [] s = Inr s"
| "forEach f (x # xs) s = (case f x s of Inl e \<Rightarrow> Inl e | Inr s' \<Rightarrow> forEach f xs s')"

definition formatearElementos :: "node \<Rightarrow> exn + node list" where
  \<comment> \<open>the result is the document after the pass, followed by the subtrees that left it\<close>
  "formatearElementos document = forEach formatear (selected document) [document]"

definition recognized :: "string option \<Rightarrow> bool" where
  \<comment> \<open>the values of \<open>data-format\<close> that the \<open>switch\<close> of the pass has a case for\<close>
  "recognized formato =
     (formato = Some ''numero'' \<or> formato = Some ''moneda''
      \<or> formato = Some ''porcentaje'' \<or> formato = Some ''compacto'')"



section \<open>Text with a numeric prefix\<close>

definition numeric_text :: "string \<Rightarrow> bool" where
  \<comment> \<open>the whole text is one StrDecimalLiteral\<close>
  "numeric_text p = (case scan_literal p of None \<Rightarrow> False | Some (_, _, rest) \<Rightarrow> rest = [])"

definition non_numeric_tail :: "string \<Rightarrow> bool" where
  \<comment> \<open>text that cannot continue a literal: it does not start with a digit, with a
      \<open>.\<close> or with an exponent part\<close>
  "non_numeric_tail t =
     (case t of
        [] \<Rightarrow> True
      | c # _ \<Rightarrow> \<not> is_digit c \<and> c \<noteq> CHR ''.'' \<and> scan_exponent t = (0, t))"

section \<open>The shape of a formatted number\<close>

fun groups_ok :: "string \<Rightarrow> bool" where
  \<comment> \<open>what follows the first cluster: clusters of a \<open>.\<close> and exactly three digits\<close>
  "groups_ok [] = True"
| "groups_ok (c # d1 # d2 # d3 # r) =
     (c = CHR ''.'' \<and> is_digit d1 \<and> is_digit d2 \<and> is_digit d3 \<and> groups_ok r)"
| "groups_ok _ = False"

definition grouped_integer :: "string \<Rightarrow> bool" where
  \<comment> \<open>a first cluster of one to three digits, then clusters of exactly three\<close>
  "grouped_integer s =
     (let g = takeWhile is_digit s
      in 1 \<le> length g \<and> length g \<le> 3 \<and> groups_ok (dropWhile is_digit s))"

definition number_shape :: "nat \<Rightarrow> string \<Rightarrow> bool" where
  \<comment> \<open>after an optional minus sign: grouped integer digits, and then nothing when
      \<open>d = 0\<close>, the separator \<open>,\<close> and exactly \<open>d\<close> digits otherwise\<close>
  "number_shape d s =
     (let u = (case s of [] \<Rightarrow> [] | c # r \<Rightarrow> if c = CHR ''-'' then r else s);
          ip = takeWhile (\<lambda>c. c \<noteq> CHR '','') u;
          fp = dropWhile (\<lambda>c. c \<noteq> CHR '','') u
      in grouped_integer ip \<and>
         (if d = 0 then fp = []
          else (case fp of [] \<Rightarrow> False | c # ds \<Rightarrow> length ds = d \<and> list_all is_digit ds)))"

section \<open>The quotient of the compact form\<close>

definition one_decimal :: "rat \<Rightarrow> string" where
  \<comment> \<open>a non-negative value rounded to one decimal, a tie upwards: the digits of the
      integer part, a \<open>.\<close>, one digit\<close>
  "one_decimal q =
     (let n = nat \<lfloor>q * 10 + 1 / 2\<rfloor> in digits10 (n div 10) @ [CHR ''.'', digit_char (n mod 10)])"

definition quotient_text :: "jsnum \<Rightarrow> string" where
  \<comment> \<open>rounded to one decimal below \<open>10 ^ 21\<close>, the plain text of the number from there on\<close>
  "quotient_text y =
     (case y of
        Fin q \<Rightarrow> if q < 10 ^ 21 then one_decimal q else number_toString y
      | _ \<Rightarrow> number_toString y)"

section \<open>Evaluation of the arithmetic\<close>

lemma floor_rat_numeral [simp]:
  "\<lfloor>numeral a / numeral b :: rat\<rfloor> = numeral a div numeral b"
  using floor_divide_of_int_eq [of "numeral a" "numeral b", where ?'a = rat] by simp

lemma floor_rat_one_numeral [simp]: "\<lfloor>1 / numeral b :: rat\<rfloor> = 1 div numeral b"
  using floor_divide_of_int_eq [of 1 "numeral b", where ?'a = rat] by simp

lemmas double_defs =
  num_lit_def num_mul_pos_def num_div_pos_def round_to_double_def round_pos_def binexp_def
  bitlen.simps pow2_def pow10_def round_half_even_def neg_def

lemmas scan_defs =
  parseFloat_def parse_float_text_def scan_literal_def scan_unsigned_def scan_exponent_def
  literal_value_def is_ascii_space_def is_space3_def is_digit_def digits_val_def digit_val_def

lemmas format_defs =
  toLocaleString_esCO_def default_number_option_def format_esCO_def to_raw_fixed_def
  shortest_decimal_def
  digits10.simps digit_char_def group_thousands.simps num_lt_def num_ge_def or_zero_def
  try_catch_def

lemmas compact_defs =
  to_fixed_def number_toString_def positive_toString_def decexp_def shortest_digits.simps

lemmas eval_defs = scan_defs double_defs format_defs compact_defs Let_def

section \<open>Exceptions never leave the formatting functions\<close>

lemma round_to_double_not_NaN: "round_to_double q \<noteq> NaN"
  by (simp add: round_to_double_def round_pos_def neg_def Let_def)

lemma try_catch_total: "\<exists>s. try_catch body (\<lambda>e. Inr c) = Inr s"
  by (cases body) (simp_all add: try_catch_def)

lemma formatoNumero_returns: "\<exists>s. formatoNumero v d = Inr s"
  unfolding formatoNumero_def Let_def by (rule try_catch_total)

lemma formatoPorcentaje_returns: "\<exists>s. formatoPorcentaje v d = Inr s"
  unfolding formatoPorcentaje_def Let_def by (rule try_catch_total)

lemma formatoCompacto_returns: "\<exists>s. formatoCompacto v = Inr s"
  unfolding formatoCompacto_def by (rule try_catch_total)

lemma formatoMoneda_returns: "\<exists>s. formatoMoneda v c d = Inr s"
proof -
  obtain t where "formatoNumero v (Some (case d of None \<Rightarrow> Fin 0 | Some x \<Rightarrow> x)) = Inr t"
    using formatoNumero_returns by blast
  then show ?thesis by (simp add: formatoMoneda_def)
qed

section \<open>Currency\<close>

text \<open>
  C6.  For every value \<open>v\<close>, symbol \<open>s\<close> and decimal-places count \<open>d\<close>,
  \<open>formatoMoneda(v, s, d)\<close> is \<open>s\<close> followed at once by \<open>formatoNumero(v, d)\<close>; with
  the defaults the symbol is \<open>$\<close> and the count is that of \<open>formatoNumero\<close>.  In
  particular \<open>formatoMoneda(100000) = "$100.000"\<close> and
  \<open>formatoMoneda(1500000.50, "$", 2) = "$1.500.000,50"\<close>.
\<close>

theorem formatoMoneda_is_symbol_then_number:
  "(\<exists>t. formatoNumero v (Some d) = Inr t \<and> formatoMoneda v (Some s) (Some d) = Inr (s @ t))
   \<and> (\<exists>t. formatoNumero v None = Inr t \<and> formatoMoneda v None None = Inr (''$'' @ t))
   \<and> formatoMoneda (JNum (Fin 100000)) None None = Inr ''$100.000''
   \<and> formatoMoneda (JNum (num_lit (150000050 / 100))) (Some ''$'') (Some (Fin 2))
       = Inr ''$1.500.000,50''"
proof (intro conjI)
  obtain t where t: "formatoNumero v (Some d) = Inr t"
    using formatoNumero_returns by blast
  then show "\<exists>t. formatoNumero v (Some d) = Inr t
      \<and> formatoMoneda v (Some s) (Some d) = Inr (s @ t)"
    by (simp add: formatoMoneda_def)
  obtain u where u: "formatoNumero v (Some (Fin 0)) = Inr u"
    using formatoNumero_returns by blast
  moreover have "formatoNumero v None = formatoNumero v (Some (Fin 0))"
    by (simp add: formatoNumero_def)
  ultimately show "\<exists>t. formatoNumero v None = Inr t
      \<and> formatoMoneda v None None = Inr (''$'' @ t)"
    by (simp add: formatoMoneda_def)
  show "formatoMoneda (JNum (Fin 100000)) None None = Inr ''$100.000''"
    by (simp add: formatoMoneda_def formatoNumero_def eval_defs split del: if_split)
  show "formatoMoneda (JNum (num_lit (150000050 / 100))) (Some ''$'') (Some (Fin 2))
       = Inr ''$1.500.000,50''"
    by (simp add: formatoMoneda_def formatoNumero_def eval_defs split del: if_split)
qed

theorem formatoMoneda_is_symbol_then_number_witness:
  "formatoNumero (JStr ''1234.5'') (Some (Fin 1)) = Inr ''1.234,5''
   \<and> formatoMoneda (JStr ''1234.5'') (Some ''COP '') (Some (Fin 1)) = Inr ''COP 1.234,5''"
proof -
  have n: "formatoNumero (JStr ''1234.5'') (Some (Fin 1)) = Inr ''1.234,5''"
    by (simp add: formatoNumero_def eval_defs split del: if_split)
  from formatoMoneda_is_symbol_then_number [of "JStr ''1234.5''" "Fin 1" "''COP ''"]
  obtain t where "formatoNumero (JStr ''1234.5'') (Some (Fin 1)) = Inr t"
    and "formatoMoneda (JStr ''1234.5'') (Some ''COP '') (Some (Fin 1)) = Inr (''COP '' @ t)"
    by blast
  with n show ?thesis by simp
qed

section \<open>Input that is not a number\<close>

text \<open>
  An input is non-numeric when \<open>parseFloat\<close> reads NaN from it: a missing value
  (\<open>undefined\<close>), \<open>null\<close>, a boolean, the empty string, text that does not start with a
  number.
\<close>

lemma non_numeric_examples:
  "parseFloat JUndefined = NaN \<and> parseFloat JNull = NaN \<and> parseFloat (JBool b) = NaN
   \<and> parseFloat (JStr []) = NaN \<and> parseFloat (JStr ''abc'') = NaN \<and> parseFloat (JNum NaN) = NaN"
  by (cases b) (simp_all add: scan_defs split del: if_split)

lemma formatoNumero_coerced:
  "or_zero (parseFloat v) = or_zero (parseFloat w) \<Longrightarrow> formatoNumero v d = formatoNumero w d"
  by (simp add: formatoNumero_def)

lemma formatoMoneda_coerced:
  "or_zero (parseFloat v) = or_zero (parseFloat w) \<Longrightarrow> formatoMoneda v s d = formatoMoneda w s d"
  by (simp add: formatoMoneda_def formatoNumero_def)

lemma formatoPorcentaje_coerced:
  "or_zero (parseFloat v) = or_zero (parseFloat w) \<Longrightarrow> formatoPorcentaje v d = formatoPorcentaje w d"
  by (simp add: formatoPorcentaje_def)

lemma formatoCompacto_coerced:
  "or_zero (parseFloat v) = or_zero (parseFloat w) \<Longrightarrow> formatoCompacto v = formatoCompacto w"
  by (simp add: formatoCompacto_def)

lemma coerce_non_numeric:
  "parseFloat v = NaN \<Longrightarrow> or_zero (parseFloat v) = or_zero (parseFloat (JNum (Fin 0)))"
  by (simp add: or_zero_def parseFloat_def)

text \<open>
  C5.  On every non-numeric input each of the four formatting functions returns what it
  returns on the number \<open>0\<close> with the same options; and on every input, numeric or
  not, each of the four returns a string: no exception leaves them.
\<close>

theorem non_numeric_input_formats_as_zero:
  "(parseFloat v = NaN \<longrightarrow>
      formatoNumero v d = formatoNumero (JNum (Fin 0)) d
    \<and> formatoMoneda v s d = formatoMoneda (JNum (Fin 0)) s d
    \<and> formatoPorcentaje v d = formatoPorcentaje (JNum (Fin 0)) d
    \<and> formatoCompacto v = formatoCompacto (JNum (Fin 0)))
   \<and> (\<exists>r. formatoNumero w d = Inr r) \<and> (\<exists>r. formatoMoneda w s d = Inr r)
   \<and> (\<exists>r. formatoPorcentaje w d = Inr r) \<and> (\<exists>r. formatoCompacto w = Inr r)"
  using coerce_non_numeric [of v]
    formatoNumero_coerced [of v "JNum (Fin 0)" d] formatoMoneda_coerced [of v "JNum (Fin 0)" s d]
    formatoPorcentaje_coerced [of v "JNum (Fin 0)" d] formatoCompacto_coerced [of v "JNum (Fin 0)"]
    formatoNumero_returns [of w d] formatoMoneda_returns [of w s d]
    formatoPorcentaje_returns [of w d] formatoCompacto_returns [of w]
  by blast

theorem non_numeric_input_formats_as_zero_witness:
  "parseFloat (JStr ''n/a'') = NaN
   \<and> formatoNumero (JStr ''n/a'') (Some (Fin 2)) = formatoNumero (JNum (Fin 0)) (Some (Fin 2))
   \<and> formatoMoneda (JStr ''n/a'') (Some ''$'') (Some (Fin 2))
       = formatoMoneda (JNum (Fin 0)) (Some ''$'') (Some (Fin 2))
   \<and> formatoPorcentaje (JStr ''n/a'') (Some (Fin 2)) = formatoPorcentaje (JNum (Fin 0)) (Some (Fin 2))
   \<and> formatoCompacto (JStr ''n/a'') = formatoCompacto (JNum (Fin 0))
   \<and> formatoNumero (JNum (Fin 0)) (Some (Fin 2)) = Inr ''0,00''"
proof -
  have h: "parseFloat (JStr ''n/a'') = NaN"
    by (simp add: scan_defs split del: if_split)
  have z: "formatoNumero (JNum (Fin 0)) (Some (Fin 2)) = Inr ''0,00''"
    by (simp add: formatoNumero_def eval_defs split del: if_split)
  from h z non_numeric_input_formats_as_zero [of "JStr ''n/a''" "Some (Fin 2)" "Some ''$''"]
  show ?thesis by blast
qed

text \<open>
  C2, as the script has it.  On every non-numeric or missing input and with the default
  options, \<open>formatoNumero\<close> returns \<open>"0"\<close>, \<open>formatoMoneda\<close> returns \<open>"$0"\<close> and
  \<open>formatoPorcentaje\<close> returns \<open>"0,0%"\<close>: its default is one decimal place, and the
  zero is formatted with it.
\<close>

theorem defaults_on_non_numeric_input:
  assumes "parseFloat v = NaN"
  shows "formatoNumero v None = Inr ''0'' \<and> formatoMoneda v None None = Inr ''$0''
         \<and> formatoPorcentaje v None = Inr ''0,0%''"
proof -
  note c = coerce_non_numeric [OF assms]
  have "formatoNumero (JNum (Fin 0)) None = Inr ''0''"
    by (simp add: formatoNumero_def eval_defs split del: if_split)
  moreover have "formatoMoneda (JNum (Fin 0)) None None = Inr ''$0''"
    by (simp add: formatoMoneda_def formatoNumero_def eval_defs split del: if_split)
  moreover have "formatoPorcentaje (JNum (Fin 0)) None = Inr ''0,0%''"
    by (simp add: formatoPorcentaje_def eval_defs split del: if_split)
  ultimately show ?thesis
    using formatoNumero_coerced [OF c] formatoMoneda_coerced [OF c]
      formatoPorcentaje_coerced [OF c]
    by simp
qed

theorem defaults_on_non_numeric_input_witness:
  "parseFloat JNull = NaN \<and> formatoNumero JNull None = Inr ''0''
   \<and> formatoMoneda JNull None None = Inr ''$0'' \<and> formatoPorcentaje JNull None = Inr ''0,0%''"
proof -
  have h: "parseFloat JNull = NaN"
    by (simp add: scan_defs split del: if_split)
  from h defaults_on_non_numeric_input [OF h] show ?thesis by blast
qed

text \<open>
  The text \<open>abc\<close> is non-numeric, and \<open>formatoPorcentaje("abc")\<close> is not \<open>"0%"\<close>.
\<close>

theorem porcentaje_non_numeric_counterexample:
  "parseFloat (JStr ''abc'') = NaN \<and> formatoPorcentaje (JStr ''abc'') None \<noteq> Inr ''0%''"
  by (simp add: formatoPorcentaje_def eval_defs split del: if_split)

section \<open>Percentages\<close>

lemma percentage_magnitude_not_NaN:
  assumes "x = or_zero y" and "p = (if num_lt x (Fin 1) then num_mul_pos x 100 else x)"
  shows "p \<noteq> NaN"
  using assms by (cases y) (simp_all add: or_zero_def num_mul_pos_def round_to_double_not_NaN)

lemma or_zero_idem: "y \<noteq> NaN \<Longrightarrow> or_zero (parseFloat (JNum y)) = y"
  by (cases y) (simp_all add: or_zero_def parseFloat_def)

lemma formatoNumero_nonneg_places:
  assumes "0 \<le> d" and "y \<noteq> NaN"
  shows "formatoNumero (JNum y) (Some (Fin d))
         = try_catch (toLocaleString_esCO y (Fin d) (Fin d)) (\<lambda>e. Inr ''0'')"
proof (cases "0 < d")
  case True
  then show ?thesis
    using assms(2) by (simp add: formatoNumero_def or_zero_idem num_lt_def Let_def)
next
  case False
  with assms(1) have "d = 0" by simp
  then show ?thesis
    using assms(2) by (simp add: formatoNumero_def or_zero_idem num_lt_def Let_def)
qed

text \<open>
  C4.  \<open>formatoPorcentaje\<close> multiplies the coerced value by 100 exactly when it is
  strictly less than 1 and otherwise takes it as it is; the result is that magnitude
  formatted as \<open>formatoNumero\<close> formats it (for every non-negative decimal-places count,
  and with one decimal place by default), followed at once by \<open>%\<close>.  At the boundary,
  \<open>formatoPorcentaje(1)\<close> is \<open>"1,0%"\<close>; and \<open>formatoPorcentaje(0.855) = "85,5%"\<close>,
  \<open>formatoPorcentaje(75, 0) = "75%"\<close>.
\<close>

theorem formatoPorcentaje_scales_below_one:
  "(x = or_zero (parseFloat v) \<and> p = (if num_lt x (Fin 1) then num_mul_pos x 100 else x)
    \<and> 0 \<le> d \<longrightarrow>
      (\<exists>s. formatoNumero (JNum p) (Some (Fin d)) = Inr s
           \<and> formatoPorcentaje v (Some (Fin d)) = Inr (s @ ''%''))
    \<and> (\<exists>s. formatoNumero (JNum p) (Some (Fin 1)) = Inr s
           \<and> formatoPorcentaje v None = Inr (s @ ''%'')))
   \<and> formatoPorcentaje (JNum (Fin 1)) None = Inr ''1,0%''
   \<and> formatoPorcentaje (JNum (num_lit (855 / 1000))) None = Inr ''85,5%''
   \<and> formatoPorcentaje (JNum (Fin 75)) (Some (Fin 0)) = Inr ''75%''"
proof (intro conjI impI)
  assume h: "x = or_zero (parseFloat v) \<and> p = (if num_lt x (Fin 1) then num_mul_pos x 100 else x)
    \<and> 0 \<le> d"
  then have p: "p \<noteq> NaN"
    using percentage_magnitude_not_NaN [of x "parseFloat v" p] by blast
  have pct: "formatoPorcentaje v (Some (Fin e))
             = try_catch (case toLocaleString_esCO p (Fin e) (Fin e) of
                            Inl ex \<Rightarrow> Inl ex | Inr s \<Rightarrow> Inr (s @ ''%''))
                 (\<lambda>ex. Inr ''0%'')" for e
    using h by (simp add: formatoPorcentaje_def Let_def)
  have both: "\<exists>s. formatoNumero (JNum p) (Some (Fin e)) = Inr s
                  \<and> formatoPorcentaje v (Some (Fin e)) = Inr (s @ ''%'')" if "0 \<le> e" for e
    using formatoNumero_nonneg_places [OF that p] pct [of e]
    by (cases "toLocaleString_esCO p (Fin e) (Fin e)") (simp_all add: try_catch_def)
  from h both [of d]
  show "\<exists>s. formatoNumero (JNum p) (Some (Fin d)) = Inr s
            \<and> formatoPorcentaje v (Some (Fin d)) = Inr (s @ ''%'')"
    by simp
  have "formatoPorcentaje v None = formatoPorcentaje v (Some (Fin 1))"
    by (simp add: formatoPorcentaje_def)
  with both [of 1]
  show "\<exists>s. formatoNumero (JNum p) (Some (Fin 1)) = Inr s
            \<and> formatoPorcentaje v None = Inr (s @ ''%'')"
    by simp
next
  show "formatoPorcentaje (JNum (Fin 1)) None = Inr ''1,0%''"
    by (simp add: formatoPorcentaje_def eval_defs split del: if_split)
  show "formatoPorcentaje (JNum (num_lit (855 / 1000))) None = Inr ''85,5%''"
    by (simp add: formatoPorcentaje_def eval_defs split del: if_split)
  show "formatoPorcentaje (JNum (Fin 75)) (Some (Fin 0)) = Inr ''75%''"
    by (simp add: formatoPorcentaje_def eval_defs split del: if_split)
qed

theorem formatoPorcentaje_scales_below_one_witness:
  "or_zero (parseFloat (JStr ''0.25'')) = Fin (1 / 4)
   \<and> num_lt (Fin (1 / 4)) (Fin 1) \<and> num_mul_pos (Fin (1 / 4)) 100 = Fin 25
   \<and> formatoNumero (JNum (Fin 25)) (Some (Fin 2)) = Inr ''25,00''
   \<and> formatoPorcentaje (JStr ''0.25'') (Some (Fin 2)) = Inr ''25,00%''
   \<and> formatoPorcentaje (JStr ''0.25'') None = Inr ''25,0%''"
proof -
  have x: "or_zero (parseFloat (JStr ''0.25'')) = Fin (1 / 4)"
    by (simp add: eval_defs split del: if_split)
  have lt: "num_lt (Fin (1 / 4)) (Fin 1)"
    by (simp add: num_lt_def)
  have p: "num_mul_pos (Fin (1 / 4)) 100 = Fin 25"
    by (simp add: double_defs Let_def split del: if_split)
  have n2: "formatoNumero (JNum (Fin 25)) (Some (Fin 2)) = Inr ''25,00''"
    by (simp add: formatoNumero_def eval_defs split del: if_split)
  have n1: "formatoNumero (JNum (Fin 25)) (Some (Fin 1)) = Inr ''25,0''"
    by (simp add: formatoNumero_def eval_defs split del: if_split)
  have "Fin (1 / 4) = or_zero (parseFloat (JStr ''0.25''))
        \<and> Fin 25 = (if num_lt (Fin (1 / 4)) (Fin 1) then num_mul_pos (Fin (1 / 4)) 100
                     else Fin (1 / 4))
        \<and> (0::rat) \<le> 2"
    using x lt p by simp
  with formatoPorcentaje_scales_below_one
         [of "Fin (1 / 4)" "JStr ''0.25''" "Fin 25" 2]
  have "(\<exists>s. formatoNumero (JNum (Fin 25)) (Some (Fin 2)) = Inr s
           \<and> formatoPorcentaje (JStr ''0.25'') (Some (Fin 2)) = Inr (s @ ''%''))
    \<and> (\<exists>s. formatoNumero (JNum (Fin 25)) (Some (Fin 1)) = Inr s
           \<and> formatoPorcentaje (JStr ''0.25'') None = Inr (s @ ''%''))"
    by blast
  with x lt p n1 n2 show ?thesis by auto
qed

section \<open>Decimal-places counts that the platform rejects\<close>

text \<open>
  C10, as the script has it.  No exception leaves \<open>formatoNumero\<close>, whatever the count
  of decimal places.  A count greater than 0 that the platform rejects (one above 100,
  or infinity) raises inside the function, is caught, and the result is \<open>"0"\<close>.  A count
  that is not greater than 0 (a negative number, NaN) never reaches the platform: the
  guard sends it to the branch that formats with zero fraction digits, and the result
  is that of the count 0.
\<close>

theorem formatoNumero_rejected_places:
  "(num_lt (Fin 0) d \<and> default_number_option d = Inl RangeError \<longrightarrow>
      formatoNumero v (Some d) = Inr ''0'')
   \<and> (\<not> num_lt (Fin 0) d \<longrightarrow> formatoNumero v (Some d) = formatoNumero v (Some (Fin 0)))
   \<and> (\<exists>s. formatoNumero v (Some d) = Inr s)
   \<and> default_number_option (Fin 101) = Inl RangeError
   \<and> formatoNumero v (Some (Fin 101)) = Inr ''0''"
proof (intro conjI impI)
  show "formatoNumero v (Some d) = Inr ''0''"
    if "num_lt (Fin 0) d \<and> default_number_option d = Inl RangeError"
    using that by (simp add: formatoNumero_def toLocaleString_esCO_def try_catch_def Let_def)
  show "formatoNumero v (Some d) = formatoNumero v (Some (Fin 0))" if "\<not> num_lt (Fin 0) d"
    using that by (simp add: formatoNumero_def num_lt_def Let_def)
  show "\<exists>s. formatoNumero v (Some d) = Inr s"
    by (rule formatoNumero_returns)
  show "default_number_option (Fin 101) = Inl RangeError"
    by (simp add: default_number_option_def)
  then show "formatoNumero v (Some (Fin 101)) = Inr ''0''"
    by (simp add: formatoNumero_def toLocaleString_esCO_def try_catch_def num_lt_def Let_def)
qed

theorem formatoNumero_rejected_places_witness:
  "num_lt (Fin 0) PInf \<and> default_number_option PInf = Inl RangeError
   \<and> formatoNumero (JNum (Fin 1234)) (Some PInf) = Inr ''0''
   \<and> \<not> num_lt (Fin 0) (Fin (- 1))
   \<and> formatoNumero (JNum (Fin 1234)) (Some (Fin (- 1))) = Inr ''1.234''"
proof -
  have a: "num_lt (Fin 0) PInf \<and> default_number_option PInf = Inl RangeError"
    by (simp add: num_lt_def default_number_option_def)
  have b: "\<not> num_lt (Fin 0) (Fin (- 1))"
    by (simp add: num_lt_def)
  have c: "formatoNumero (JNum (Fin 1234)) (Some (Fin 0)) = Inr ''1.234''"
    by (simp add: formatoNumero_def eval_defs split del: if_split)
  from a b c formatoNumero_rejected_places [of PInf "JNum (Fin 1234)"]
    formatoNumero_rejected_places [of "Fin (- 1)" "JNum (Fin 1234)"]
  show ?thesis by simp
qed

text \<open>
  The platform rejects the count \<open>-1\<close>, and \<open>formatoNumero(1234, -1)\<close> is
  \<open>"1.234"\<close>, not \<open>"0"\<close>.
\<close>

theorem formatoNumero_negative_places_counterexample:
  "default_number_option (Fin (- 1)) = Inl RangeError
   \<and> formatoNumero (JNum (Fin 1234)) (Some (Fin (- 1))) = Inr ''1.234''
   \<and> formatoNumero (JNum (Fin 1234)) (Some (Fin (- 1))) \<noteq> Inr ''0''"
  by (simp add: formatoNumero_def eval_defs split del: if_split)

section \<open>Properties of the declarative pass\<close>

lemma texto_formateado_returns: "\<exists>r. texto_formateado e = Inr r"
proof -
  obtain a where a: "formatoNumero (JNum (or_zero (parseFloat (JStr (textContent e)))))
      (Some (or_zero (parseInt (getAttribute e ''data-decimales'')))) = Inr a"
    using formatoNumero_returns by blast
  obtain b where b: "formatoMoneda (JNum (or_zero (parseFloat (JStr (textContent e)))))
      (Some (case getAttribute e ''data-simbolo'' of None \<Rightarrow> ''$''
             | Some s \<Rightarrow> if s = [] then ''$'' else s))
      (Some (or_zero (parseInt (getAttribute e ''data-decimales'')))) = Inr b"
    using formatoMoneda_returns by blast
  obtain c where c: "formatoPorcentaje (JNum (or_zero (parseFloat (JStr (textContent e)))))
      (Some (or_zero (parseInt (getAttribute e ''data-decimales'')))) = Inr c"
    using formatoPorcentaje_returns by blast
  obtain d where d: "formatoCompacto (JNum (or_zero (parseFloat (JStr (textContent e))))) = Inr d"
    using formatoCompacto_returns by blast
  show ?thesis
    by (simp add: texto_formateado_def Let_def a b c d)
qed


lemma formatear_elemento_returns: "\<exists>e'. formatear_elemento e = Inr e'"
proof -
  obtain r where "texto_formateado e = Inr r"
    using texto_formateado_returns by blast
  then show ?thesis
    by (cases r) (simp_all add: formatear_elemento_def)
qed
















lemmas pass_defs =
  formatearElementos_def formatear_def texto_formateado_def getAttribute_def ids_def ident_def
  is_element_def parseInt_def parse_int_text_def



text \<open>
  C1, as the script has it.  When \<open>data-decimales\<close> is missing or does not parse, the
  count of decimal places that the pass hands to the dispatched function is \<open>0\<close> for
  \<open>numero\<close>, for \<open>moneda\<close> and for \<open>porcentaje\<close> alike: the new text of a
  \<open>porcentaje\<close> element is \<open>formatoPorcentaje(valor, 0)\<close>, as the script's usage note
  (\<open>0.85\<close> becomes \<open>85%\<close>) says.
\<close>

theorem formatear_elemento_default_places:
  assumes "getAttribute e ''data-decimales'' = None
           \<or> parseInt (getAttribute e ''data-decimales'') = NaN"
    and "valor = or_zero (parseFloat (JStr (textContent e)))"
  shows "(getAttribute e ''data-format'' = Some ''numero'' \<longrightarrow>
            (\<exists>s. formatoNumero (JNum valor) (Some (Fin 0)) = Inr s
                 \<and> formatear_elemento e = Inr (e\<lparr>textContent := s\<rparr>)))
       \<and> (getAttribute e ''data-format'' = Some ''moneda'' \<longrightarrow>
            (\<exists>s. formatoMoneda (JNum valor)
                   (Some (case getAttribute e ''data-simbolo'' of None \<Rightarrow> ''$''
                          | Some c \<Rightarrow> if c = [] then ''$'' else c)) (Some (Fin 0)) = Inr s
                 \<and> formatear_elemento e = Inr (e\<lparr>textContent := s\<rparr>)))
       \<and> (getAttribute e ''data-format'' = Some ''porcentaje'' \<longrightarrow>
            (\<exists>s. formatoPorcentaje (JNum valor) (Some (Fin 0)) = Inr s
                 \<and> formatear_elemento e = Inr (e\<lparr>textContent := s\<rparr>)))"
proof -
  have "parseInt None = NaN"
    by (simp add: parseInt_def parse_int_text_def is_ascii_space_def is_space3_def is_digit_def Let_def)
  with assms(1) have d: "or_zero (parseInt (getAttribute e ''data-decimales'')) = Fin 0"
    by (auto simp: or_zero_def)
  obtain a where a: "formatoNumero (JNum valor) (Some (Fin 0)) = Inr a"
    using formatoNumero_returns by blast
  obtain b where b: "formatoMoneda (JNum valor)
      (Some (case getAttribute e ''data-simbolo'' of None \<Rightarrow> ''$''
             | Some c \<Rightarrow> if c = [] then ''$'' else c)) (Some (Fin 0)) = Inr b"
    using formatoMoneda_returns by blast
  obtain c where c: "formatoPorcentaje (JNum valor) (Some (Fin 0)) = Inr c"
    using formatoPorcentaje_returns by blast
  show ?thesis
    using a b c unfolding assms(2) by (simp add: formatear_elemento_def texto_formateado_def Let_def d)
qed

theorem formatear_elemento_default_places_witness:
  "getAttribute \<lparr>attributes = [(''data-format'', ''porcentaje'')], textContent = ''0.85''\<rparr>
     ''data-decimales'' = None
   \<and> getAttribute \<lparr>attributes = [(''data-format'', ''porcentaje'')], textContent = ''0.85''\<rparr>
     ''data-format'' = Some ''porcentaje''
   \<and> formatoPorcentaje (JNum (or_zero (parseFloat (JStr ''0.85'')))) (Some (Fin 0)) = Inr ''85%''
   \<and> formatear_elemento \<lparr>attributes = [(''data-format'', ''porcentaje'')], textContent = ''0.85''\<rparr>
       = Inr \<lparr>attributes = [(''data-format'', ''porcentaje'')], textContent = ''85%''\<rparr>"
proof -
  let ?e = "\<lparr>attributes = [(''data-format'', ''porcentaje'')], textContent = ''0.85''\<rparr>"
  have h1: "getAttribute ?e ''data-decimales'' = None"
    by (simp add: getAttribute_def)
  have h2: "getAttribute ?e ''data-format'' = Some ''porcentaje''"
    by (simp add: getAttribute_def)
  have v: "formatoPorcentaje (JNum (or_zero (parseFloat (JStr ''0.85'')))) (Some (Fin 0))
           = Inr ''85%''"
    by (simp add: formatoPorcentaje_def eval_defs split del: if_split)
  from formatear_elemento_default_places
         [of ?e "or_zero (parseFloat (JStr ''0.85''))"] h1 h2
  have "\<exists>s. formatoPorcentaje (JNum (or_zero (parseFloat (JStr ''0.85'')))) (Some (Fin 0)) = Inr s
            \<and> formatear_elemento ?e = Inr (?e\<lparr>textContent := s\<rparr>)"
    by simp
  with v h1 h2 show ?thesis by auto
qed

text \<open>
  A \<open>porcentaje\<close> element without \<open>data-decimales\<close> and with the text \<open>0.5\<close>: its new
  text is \<open>"50%"\<close>, while \<open>formatoPorcentaje\<close> with its default of one decimal place
  gives \<open>"50,0%"\<close>.
\<close>

theorem porcentaje_element_default_counterexample:
  "getAttribute \<lparr>attributes = [(''data-format'', ''porcentaje'')], textContent = ''0.5''\<rparr>
     ''data-decimales'' = None
   \<and> formatear_elemento \<lparr>attributes = [(''data-format'', ''porcentaje'')], textContent = ''0.5''\<rparr>
       = Inr \<lparr>attributes = [(''data-format'', ''porcentaje'')], textContent = ''50%''\<rparr>
   \<and> formatoPorcentaje (JNum (or_zero (parseFloat (JStr ''0.5'')))) None = Inr ''50,0%''
   \<and> formatear_elemento \<lparr>attributes = [(''data-format'', ''porcentaje'')], textContent = ''0.5''\<rparr>
       \<noteq> Inr \<lparr>attributes = [(''data-format'', ''porcentaje'')], textContent = ''50,0%''\<rparr>"
proof -
  have a: "getAttribute \<lparr>attributes = [(''data-format'', ''porcentaje'')], textContent = ''0.5''\<rparr>
     ''data-decimales'' = None"
    by (simp add: getAttribute_def)
  have b: "formatear_elemento \<lparr>attributes = [(''data-format'', ''porcentaje'')], textContent = ''0.5''\<rparr>
       = Inr \<lparr>attributes = [(''data-format'', ''porcentaje'')], textContent = ''50%''\<rparr>"
    by (simp add: formatear_elemento_def texto_formateado_def getAttribute_def parseInt_def parse_int_text_def
        formatoPorcentaje_def eval_defs split del: if_split)
  have c: "formatoPorcentaje (JNum (or_zero (parseFloat (JStr ''0.5'')))) None = Inr ''50,0%''"
    by (simp add: formatoPorcentaje_def eval_defs split del: if_split)
  from a b c show ?thesis by simp
qed

section \<open>Grouping and fraction digits\<close>

lemma is_digit_digit_char: "k < 10 \<Longrightarrow> is_digit (digit_char k)"
proof -
  assume "k < 10"
  then have "k \<in> {0, 1, 2, 3, 4, 5, 6, 7, 8, 9}" by auto
  then show ?thesis
    by (auto simp: is_digit_def digit_char_def)
qed

lemma digits10_digits: "list_all is_digit (digits10 n) \<and> digits10 n \<noteq> []"
proof (induction n rule: digits10.induct)
  case (1 n)
  show ?case
  proof (cases "n < 10")
    case True
    then show ?thesis
      by (simp add: digits10.simps [of n] is_digit_digit_char)
  next
    case False
    with 1 show ?thesis
      by (simp add: digits10.simps [of n] is_digit_digit_char)
  qed
qed

lemma to_raw_fixed_digits:
  assumes "to_raw_fixed x f = (a, b)"
  shows "a \<noteq> [] \<and> list_all is_digit a \<and> length b = f \<and> list_all is_digit b"
proof -
  define m where "m = digits10 (nat \<lfloor>x * 10 ^ f + 1 / 2\<rfloor>)"
  define m' where "m' = (if length m \<le> f then replicate (f + 1 - length m) (CHR ''0'') @ m else m)"
  have m: "list_all is_digit m"
    using digits10_digits by (simp add: m_def)
  have z: "is_digit (CHR ''0'')"
    by (simp add: is_digit_def)
  have d: "list_all is_digit m'"
    using m z by (simp add: m'_def list_all_iff)
  have l: "f < length m'"
    by (auto simp: m'_def)
  have "to_raw_fixed x f = (take (length m' - f) m', drop (length m' - f) m')"
    unfolding to_raw_fixed_def Let_def m_def m'_def ..
  with assms have ab: "a = take (length m' - f) m'" "b = drop (length m' - f) m'"
    by simp_all
  have "a \<noteq> []" using l ab by auto
  moreover have "length b = f" using l ab by auto
  moreover have "list_all is_digit a" "list_all is_digit b"
    using d ab by (auto simp: list_all_iff dest: in_set_takeD in_set_dropD)
  ultimately show ?thesis by blast
qed

lemma groups_ok_append: "groups_ok r \<Longrightarrow> groups_ok t \<Longrightarrow> groups_ok (r @ t)"
  by (induction r rule: groups_ok.induct) simp_all

lemma group_thousands_decomp:
  "s \<noteq> [] \<Longrightarrow> list_all is_digit s \<Longrightarrow>
     \<exists>g r. group_thousands s = g @ r \<and> g \<noteq> [] \<and> length g \<le> 3 \<and> list_all is_digit g
          \<and> groups_ok r \<and> (r \<noteq> [] \<longrightarrow> hd r = CHR ''.'')
          \<and> list_all (\<lambda>c. c = CHR ''.'' \<or> is_digit c) r"
proof (induction s rule: group_thousands.induct)
  case (1 s)
  show ?case
  proof (cases "length s \<le> 3")
    case True
    with "1.prems" have "group_thousands s = s @ [] \<and> s \<noteq> [] \<and> length s \<le> 3
        \<and> list_all is_digit s \<and> groups_ok [] \<and> ([] \<noteq> [] \<longrightarrow> hd [] = CHR ''.'')
        \<and> list_all (\<lambda>c. c = CHR ''.'' \<or> is_digit c) []"
      by (simp add: group_thousands.simps [of s])
    then show ?thesis by blast
  next
    case False
    define p where "p = take (length s - 3) s"
    define t where "t = drop (length s - 3) s"
    have p: "p \<noteq> []" "list_all is_digit p"
      using False "1.prems" by (auto simp: p_def list_all_iff dest: in_set_takeD)
    have t: "length t = 3" "list_all is_digit t"
      using False "1.prems" by (auto simp: t_def list_all_iff dest: in_set_dropD)
    then obtain d1 d2 d3 where t3: "t = [d1, d2, d3]"
      by (auto simp: length_Suc_conv numeral_3_eq_3)
    from "1.IH" [OF False] p obtain g r where
      gr: "group_thousands p = g @ r" "g \<noteq> []" "length g \<le> 3" "list_all is_digit g"
        "groups_ok r" "r \<noteq> [] \<longrightarrow> hd r = CHR ''.''"
        "list_all (\<lambda>c. c = CHR ''.'' \<or> is_digit c) r"
      unfolding p_def by blast
    have e: "group_thousands s = g @ (r @ CHR ''.'' # t)"
      using False gr(1) by (simp add: group_thousands.simps [of s] p_def t_def)
    have "groups_ok (CHR ''.'' # t)"
      using t(2) by (simp add: t3)
    then have "groups_ok (r @ CHR ''.'' # t)"
      using gr(5) by (rule groups_ok_append [rotated])
    moreover have "hd (r @ CHR ''.'' # t) = CHR ''.''"
      using gr(6) by (cases r) simp_all
    moreover have "list_all (\<lambda>c. c = CHR ''.'' \<or> is_digit c) (r @ CHR ''.'' # t)"
      using gr(7) t(2) by (auto simp: list_all_iff)
    ultimately show ?thesis
      using e gr(2,3,4) by blast
  qed
qed

lemma is_digit_not_separator:
  "is_digit c \<Longrightarrow> c \<noteq> CHR '','' \<and> c \<noteq> CHR ''.'' \<and> c \<noteq> CHR ''-''"
  by (auto simp: is_digit_def)

lemma group_thousands_shape:
  assumes "a \<noteq> []" and "list_all is_digit a"
  shows "grouped_integer (group_thousands a)"
    and "CHR '','' \<notin> set (group_thousands a)"
    and "\<exists>c r. group_thousands a = c # r \<and> c \<noteq> CHR ''-''"
proof -
  from group_thousands_decomp [OF assms] obtain g r where
    gr: "group_thousands a = g @ r" and g0: "g \<noteq> []" and g3: "length g \<le> 3"
      and gd: "list_all is_digit g" and ro: "groups_ok r"
      and rh: "r \<noteq> [] \<longrightarrow> hd r = CHR ''.''"
      and rc: "list_all (\<lambda>c. c = CHR ''.'' \<or> is_digit c) r"
    by blast
  have nd: "\<not> is_digit (CHR ''.'')"
    by (simp add: is_digit_def)
  have ag: "is_digit x" if "x \<in> set g" for x
    using that gd by (simp add: list_all_iff)
  have rs: "r = [] \<or> (\<exists>r'. r = CHR ''.'' # r')"
    using rh by (cases r) simp_all
  have tw: "takeWhile is_digit (g @ r) = g"
  proof -
    have "takeWhile is_digit (g @ r) = g @ takeWhile is_digit r"
      using ag by (rule takeWhile_append2)
    moreover have "takeWhile is_digit r = []"
      using rs nd by auto
    ultimately show ?thesis by simp
  qed
  have dw: "dropWhile is_digit (g @ r) = r"
  proof -
    have "dropWhile is_digit (g @ r) = dropWhile is_digit r"
      using ag by (rule dropWhile_append2)
    moreover have "dropWhile is_digit r = r"
      using rs nd by auto
    ultimately show ?thesis by simp
  qed
  have "1 \<le> length g"
    using g0 by (cases g) simp_all
  then show "grouped_integer (group_thousands a)"
    unfolding grouped_integer_def gr Let_def tw dw using g3 ro by simp
  have "x \<noteq> CHR '',''" if "x \<in> set g" for x
    using ag [OF that] is_digit_not_separator [of x] by simp
  moreover have "x \<noteq> CHR '',''" if "x \<in> set r" for x
  proof -
    from that rc have "x = CHR ''.'' \<or> is_digit x"
      by (simp add: list_all_iff)
    then show ?thesis
      using is_digit_not_separator [of x] by auto
  qed
  ultimately show "CHR '','' \<notin> set (group_thousands a)"
    unfolding gr by auto
  obtain c g' where g: "g = c # g'" using g0 by (cases g) auto
  then have "is_digit c" using ag by simp
  then have "c \<noteq> CHR ''-''" using is_digit_not_separator [of c] by simp
  with g show "\<exists>c r. group_thousands a = c # r \<and> c \<noteq> CHR ''-''"
    unfolding gr by simp
qed

lemma format_esCO_shape: "number_shape d (format_esCO (Fin q) d d)"
proof -
  obtain a b where ab: "to_raw_fixed (shortest_decimal \<bar>q\<bar>) d = (a, b)"
    by (cases "to_raw_fixed (shortest_decimal \<bar>q\<bar>) d") blast
  note dg = to_raw_fixed_digits [OF ab]
  define G where "G = group_thousands a"
  from dg have a: "a \<noteq> []" "list_all is_digit a"
    by simp_all
  note G = group_thousands_shape [OF a, folded G_def]
  define F where "F = (if b = [] then [] else CHR '','' # b)"
  have f: "format_esCO (Fin q) d d = (if q < 0 then ''-'' else []) @ G @ F"
    by (simp add: format_esCO_def ab G_def F_def)
  obtain c r where cr: "G = c # r" "c \<noteq> CHR ''-''" using G(3) by blast
  have u: "(case (if q < 0 then ''-'' else []) @ G @ F of [] \<Rightarrow> []
            | c # r \<Rightarrow> if c = CHR ''-'' then r else (if q < 0 then ''-'' else []) @ G @ F)
           = G @ F"
    using cr by simp
  have ng: "x \<noteq> CHR '',''" if "x \<in> set G" for x
    using that G(2) by auto
  have tw: "takeWhile (\<lambda>c. c \<noteq> CHR '','') (G @ F) = G"
    by (simp add: F_def ng)
  have dw: "dropWhile (\<lambda>c. c \<noteq> CHR '','') (G @ F) = F"
    by (simp add: F_def ng)
  have fr: "if d = 0 then F = []
            else (case F of [] \<Rightarrow> False | c # ds \<Rightarrow> length ds = d \<and> list_all is_digit ds)"
    using dg by (auto simp: F_def)
  show ?thesis
    unfolding number_shape_def f u Let_def tw dw
    using G(1) fr by simp
qed

text \<open>
  C3, as the platform allows it.  For every input whose coerced value \<open>q\<close> is finite and
  every integer count \<open>d\<close> from 0 to 100, \<open>formatoNumero\<close> returns a string with
  exactly \<open>d\<close> digits after the decimal separator \<open>,\<close> (and no separator when
  \<open>d = 0\<close>), whose integer digits are grouped in clusters of exactly three separated by
  \<open>.\<close>, the first cluster of one to three digits.
\<close>

theorem formatoNumero_shape:
  assumes "or_zero (parseFloat v) = Fin q" and "d \<le> 100"
  shows "\<exists>s. formatoNumero v (Some (Fin (of_nat d))) = Inr s \<and> number_shape d s"
proof -
  have o: "default_number_option (Fin (of_nat d)) = Inr d"
    using assms(2) by (simp add: default_number_option_def)
  have o0: "default_number_option (Fin 0) = Inr 0"
    by (simp add: default_number_option_def)
  have "formatoNumero v (Some (Fin (of_nat d))) = Inr (format_esCO (Fin q) d d)"
  proof (cases "d = 0")
    case True
    then show ?thesis
      by (simp add: formatoNumero_def assms(1) num_lt_def toLocaleString_esCO_def o0
          try_catch_def)
  next
    case False
    then show ?thesis
      by (simp add: formatoNumero_def assms(1) num_lt_def toLocaleString_esCO_def o
          try_catch_def Let_def)
  qed
  with format_esCO_shape [of d q] show ?thesis by simp
qed

theorem formatoNumero_shape_witness:
  "or_zero (parseFloat (JNum (Fin (- 1234567 / 1000)))) = Fin (- 1234567 / 1000)
   \<and> (2::nat) \<le> 100
   \<and> formatoNumero (JNum (Fin (- 1234567 / 1000))) (Some (Fin 2)) = Inr ''-1.234,57''
   \<and> number_shape 2 ''-1.234,57''"
proof -
  have h: "or_zero (parseFloat (JNum (Fin (- 1234567 / 1000)))) = Fin (- 1234567 / 1000)"
    by (simp add: or_zero_def parseFloat_def)
  have e: "formatoNumero (JNum (Fin (- 1234567 / 1000))) (Some (Fin 2)) = Inr ''-1.234,57''"
    by (simp add: formatoNumero_def eval_defs split del: if_split)
  from formatoNumero_shape [OF h, of 2] e show ?thesis
    using h by simp
qed

text \<open>
  The count 101: \<open>formatoNumero(5, 101)\<close> is \<open>"0"\<close>, which has no separator and no
  digit after it.
\<close>

theorem formatoNumero_shape_counterexample:
  "formatoNumero (JNum (Fin 5)) (Some (Fin (of_nat 101))) = Inr ''0''
   \<and> \<not> number_shape 101 ''0''"
  by (simp add: formatoNumero_def toLocaleString_esCO_def default_number_option_def
      try_catch_def num_lt_def number_shape_def Let_def)

section \<open>The compact form\<close>

lemma digits10_no_comma: "CHR '','' \<notin> set (digits10 k)"
proof
  assume "CHR '','' \<in> set (digits10 k)"
  moreover have "list_all is_digit (digits10 k)"
    using digits10_digits by simp
  ultimately have "is_digit (CHR '','')"
    by (simp add: list_all_iff)
  then show False
    by (simp add: is_digit_def)
qed

lemma to_raw_fixed_no_comma:
  assumes "to_raw_fixed y f = (a, b)"
  shows "CHR '','' \<notin> set a \<and> CHR '','' \<notin> set b"
proof -
  have "\<not> is_digit (CHR '','')"
    by (simp add: is_digit_def)
  with to_raw_fixed_digits [OF assms] show ?thesis
    by (auto simp: list_all_iff)
qed

lemma positive_toString_no_comma: "CHR '','' \<notin> set (positive_toString x)"
proof -
  obtain s n where sn: "shortest_digits 1 x (decexp x) = (s, n)"
    by (cases "shortest_digits 1 x (decexp x)") blast
  have t: "CHR '','' \<notin> set (take i (digits10 s))" for i
    using digits10_no_comma [of s] by (auto dest: in_set_takeD)
  have d: "CHR '','' \<notin> set (drop i (digits10 s))" for i
    using digits10_no_comma [of s] by (auto dest: in_set_dropD)
  show ?thesis
    unfolding positive_toString_def sn Let_def
    using t d digits10_no_comma by simp
qed

lemma number_toString_no_comma: "CHR '','' \<notin> set (number_toString x)"
  using positive_toString_no_comma
  by (cases x) (simp_all add: number_toString_def)

lemma to_fixed_no_comma: "CHR '','' \<notin> set (to_fixed x f)"
proof (cases x)
  case (Fin q)
  obtain a b where ab: "to_raw_fixed \<bar>q\<bar> f = (a, b)"
    by (cases "to_raw_fixed \<bar>q\<bar> f") blast
  show ?thesis
    using to_raw_fixed_no_comma [OF ab] number_toString_no_comma [of "Fin \<bar>q\<bar>"]
    by (simp add: Fin to_fixed_def ab Let_def)
qed (simp_all add: to_fixed_def number_toString_def)

lemma to_raw_fixed_one:
  "to_raw_fixed y (Suc 0)
   = (digits10 (nat \<lfloor>y * 10 + 1 / 2\<rfloor> div 10), [digit_char (nat \<lfloor>y * 10 + 1 / 2\<rfloor> mod 10)])"
proof -
  define n where "n = nat \<lfloor>y * 10 + 1 / 2\<rfloor>"
  show ?thesis
  proof (cases "n < 10")
    case True
    then have "digits10 n = [digit_char n]" "digits10 (n div 10) = ''0''"
      by (simp_all add: digits10.simps [of n] digits10.simps [of 0] digit_char_def)
    with True show ?thesis
      unfolding to_raw_fixed_def by (simp add: Let_def n_def [symmetric])
  next
    case False
    then have m: "digits10 n = digits10 (n div 10) @ [digit_char (n mod 10)]"
      by (simp add: digits10.simps [of n])
    have "digits10 (n div 10) \<noteq> []"
      using digits10_digits by simp
    then have "\<not> length (digits10 n) \<le> Suc 0"
      by (cases "digits10 (n div 10)") (simp_all add: m)
    then show ?thesis
      unfolding to_raw_fixed_def by (simp add: Let_def n_def [symmetric] m)
  qed
qed

lemma round_to_double_positive:
  assumes "0 < q"
  shows "round_to_double q = PInf \<or> (\<exists>r. 0 \<le> r \<and> round_to_double q = Fin r)"
proof -
  define p where "p = max (binexp q - 52) (- 1074)"
  have "0 < pow2 p"
    by (simp add: pow2_def)
  with assms have "0 \<le> q / pow2 p"
    by simp
  then have "0 \<le> round_half_even (q / pow2 p)"
    by (auto simp: round_half_even_def Let_def)
  with \<open>0 < pow2 p\<close> have "0 \<le> of_int (round_half_even (q / pow2 p)) * pow2 p"
    by simp
  with assms show ?thesis
    by (auto simp: round_to_double_def round_pos_def Let_def p_def)
qed

lemma to_fixed_quotient:
  assumes "num_ge x (Fin b)" and "0 < b" and "0 < c"
  shows "to_fixed (num_div_pos x c) 1 = quotient_text (num_div_pos x c)"
proof (cases x)
  case (Fin q)
  with assms have "0 < q / c"
    by (simp add: num_ge_def)
  from round_to_double_positive [OF this] show ?thesis
  proof
    assume "round_to_double (q / c) = PInf"
    then show ?thesis
      by (simp add: Fin num_div_pos_def to_fixed_def quotient_text_def)
  next
    assume "\<exists>r. 0 \<le> r \<and> round_to_double (q / c) = Fin r"
    then obtain r where "0 \<le> r" "round_to_double (q / c) = Fin r"
      by blast
    then show ?thesis
      by (simp add: Fin num_div_pos_def to_fixed_def quotient_text_def one_decimal_def
          to_raw_fixed_one Let_def)
  qed
qed (use assms in \<open>simp_all add: num_ge_def num_div_pos_def to_fixed_def quotient_text_def\<close>)

text \<open>
  C7, as the platform has it.  \<open>formatoCompacto\<close> tries its thresholds from the largest to
  the smallest and takes the first that holds: from 1,000,000,000 on it returns
  \<open>toFixed(1)\<close> of the value divided by \<open>1e9\<close> with the suffix \<open>B\<close>; from 1,000,000
  on, of the value divided by \<open>1e6\<close> with \<open>M\<close>; from 1,000 on, of the value divided by
  \<open>1e3\<close> with \<open>K\<close>; below that, the plain text of the number (\<open>toString\<close>).  The
  quotient is rounded to one decimal (digits, a \<open>.\<close>, one digit) when it is below
  \<open>1e21\<close>, and is the plain text of the quotient from \<open>1e21\<close> on and for infinity; no
  result contains a \<open>,\<close>.  So \<open>formatoCompacto(1500) = "1.5K"\<close>,
  \<open>formatoCompacto(2500000) = "2.5M"\<close>, \<open>formatoCompacto(999) = "999"\<close>.
\<close>

theorem formatoCompacto_thresholds:
  "(x = or_zero (parseFloat v) \<longrightarrow>
      (num_ge x (Fin 1000000000) \<longrightarrow>
         formatoCompacto v = Inr (quotient_text (num_div_pos x 1000000000) @ ''B''))
    \<and> (\<not> num_ge x (Fin 1000000000) \<and> num_ge x (Fin 1000000) \<longrightarrow>
         formatoCompacto v = Inr (quotient_text (num_div_pos x 1000000) @ ''M''))
    \<and> (\<not> num_ge x (Fin 1000000) \<and> num_ge x (Fin 1000) \<longrightarrow>
         formatoCompacto v = Inr (quotient_text (num_div_pos x 1000) @ ''K''))
    \<and> (\<not> num_ge x (Fin 1000) \<longrightarrow> formatoCompacto v = Inr (number_toString x)))
   \<and> (formatoCompacto v = Inr r \<longrightarrow> CHR '','' \<notin> set r)
   \<and> formatoCompacto (JNum (Fin 1500)) = Inr ''1.5K''
   \<and> formatoCompacto (JNum (Fin 2500000)) = Inr ''2.5M''
   \<and> formatoCompacto (JNum (Fin 999)) = Inr ''999''"
proof (intro conjI impI)
  assume x: "x = or_zero (parseFloat v)"
  have ge: "num_ge x (Fin 1000000) \<Longrightarrow> num_ge x (Fin 1000)"
    "num_ge x (Fin 1000000000) \<Longrightarrow> num_ge x (Fin 1000000)"
    by (cases x; simp add: num_ge_def)+
  show "formatoCompacto v = Inr (quotient_text (num_div_pos x 1000000000) @ ''B'')"
    if "num_ge x (Fin 1000000000)"
    using that x to_fixed_quotient [OF that, of 1000000000]
    by (simp add: formatoCompacto_def try_catch_def Let_def)
  show "formatoCompacto v = Inr (quotient_text (num_div_pos x 1000000) @ ''M'')"
    if "\<not> num_ge x (Fin 1000000000) \<and> num_ge x (Fin 1000000)"
    using that x to_fixed_quotient [of x 1000000 1000000]
    by (simp add: formatoCompacto_def try_catch_def Let_def)
  show "formatoCompacto v = Inr (quotient_text (num_div_pos x 1000) @ ''K'')"
    if "\<not> num_ge x (Fin 1000000) \<and> num_ge x (Fin 1000)"
    using that x ge to_fixed_quotient [of x 1000 1000]
    by (auto simp: formatoCompacto_def try_catch_def Let_def)
  show "formatoCompacto v = Inr (number_toString x)" if "\<not> num_ge x (Fin 1000)"
    using that x ge by (auto simp: formatoCompacto_def try_catch_def Let_def)
next
  assume "formatoCompacto v = Inr r"
  then show "CHR '','' \<notin> set r"
    using to_fixed_no_comma number_toString_no_comma
    by (auto simp: formatoCompacto_def try_catch_def Let_def split: if_splits)
next
  show "formatoCompacto (JNum (Fin 1500)) = Inr ''1.5K''"
    by (simp add: formatoCompacto_def eval_defs split del: if_split)
  show "formatoCompacto (JNum (Fin 2500000)) = Inr ''2.5M''"
    by (simp add: formatoCompacto_def eval_defs split del: if_split)
  show "formatoCompacto (JNum (Fin 999)) = Inr ''999''"
    by (simp add: formatoCompacto_def eval_defs split del: if_split)
qed

theorem formatoCompacto_thresholds_witness:
  "Fin 1234567 = or_zero (parseFloat (JStr ''1234567''))
   \<and> \<not> num_ge (Fin 1234567) (Fin 1000000000) \<and> num_ge (Fin 1234567) (Fin 1000000)
   \<and> quotient_text (num_div_pos (Fin 1234567) 1000000) = ''1.2''
   \<and> formatoCompacto (JStr ''1234567'') = Inr ''1.2M''
   \<and> CHR '','' \<notin> set ''1.2M''"
proof -
  have x: "Fin 1234567 = or_zero (parseFloat (JStr ''1234567''))"
    by (simp add: eval_defs split del: if_split)
  have g: "\<not> num_ge (Fin 1234567) (Fin 1000000000) \<and> num_ge (Fin 1234567) (Fin 1000000)"
    by (simp add: num_ge_def)
  have q: "quotient_text (num_div_pos (Fin 1234567) 1000000) = ''1.2''"
    by (simp add: quotient_text_def one_decimal_def eval_defs split del: if_split)
  from formatoCompacto_thresholds
         [of "Fin 1234567" "JStr ''1234567''" "''1.2M''"] x g q
  show ?thesis by simp
qed

text \<open>
  The value \<open>1e30\<close> is above the first threshold and its quotient is \<open>1e21\<close>:
  \<open>formatoCompacto(1e30)\<close> is \<open>"1e+21B"\<close>, where the quotient rounded to one decimal
  would be \<open>"1000000000000000000000.0"\<close>.
\<close>

theorem formatoCompacto_large_counterexample:
  "num_ge (or_zero (parseFloat (JNum (num_lit (10 ^ 30))))) (Fin 1000000000)
   \<and> num_div_pos (or_zero (parseFloat (JNum (num_lit (10 ^ 30))))) 1000000000 = Fin (10 ^ 21)
   \<and> one_decimal (10 ^ 21) = ''1000000000000000000000.0''
   \<and> formatoCompacto (JNum (num_lit (10 ^ 30))) = Inr ''1e+21B''
   \<and> formatoCompacto (JNum (num_lit (10 ^ 30))) \<noteq> Inr (one_decimal (10 ^ 21) @ ''B'')"
proof -
  have a: "num_lit (10 ^ 30) = Fin 1000000000000000019884624838656"
    by (simp add: double_defs Let_def split del: if_split)
  have b: "num_div_pos (Fin 1000000000000000019884624838656) 1000000000 = Fin (10 ^ 21)"
    by (simp add: double_defs Let_def split del: if_split)
  have c: "one_decimal (10 ^ 21) = ''1000000000000000000000.0''"
    by (simp add: one_decimal_def digits10.simps digit_char_def Let_def split del: if_split)
  have d: "formatoCompacto (JNum (Fin 1000000000000000019884624838656)) = Inr ''1e+21B''"
    by (simp add: formatoCompacto_def eval_defs split del: if_split)
  from a b c d show ?thesis
    by (simp add: parseFloat_def or_zero_def num_ge_def)
qed

section \<open>Reading a numeric prefix\<close>

lemma digits_then_tail:
  assumes "non_numeric_tail t"
  shows "takeWhile is_digit (r @ t) = takeWhile is_digit r"
    and "dropWhile is_digit (r @ t) = dropWhile is_digit r @ t"
proof -
  have t: "takeWhile is_digit t = []" "dropWhile is_digit t = t"
    using assms by (cases t; simp add: non_numeric_tail_def)+
  show "takeWhile is_digit (r @ t) = takeWhile is_digit r"
    by (induction r) (simp_all add: t)
  show "dropWhile is_digit (r @ t) = dropWhile is_digit r @ t"
    by (induction r) (simp_all add: t)
qed

lemma scan_exponent_tail:
  assumes "scan_exponent s = (ex, [])" and "non_numeric_tail t"
  shows "scan_exponent (s @ t) = (ex, t)"
proof (cases s)
  case Nil
  with assms(1) have "ex = 0"
    by (simp add: scan_exponent_def)
  moreover have "scan_exponent t = (0, t)"
    using assms(2) by (cases t) (simp_all add: non_numeric_tail_def scan_exponent_def)
  ultimately show ?thesis
    using Nil by simp
next
  case (Cons c r)
  note dt = digits_then_tail [OF assms(2)]
  show ?thesis
  proof (cases "c = CHR ''e'' \<or> c = CHR ''E''")
    case False
    with assms(1) Cons show ?thesis
      by (simp add: scan_exponent_def)
  next
    case True
    show ?thesis
    proof (cases r)
      case Nil
      with assms(1) Cons True show ?thesis
        by (auto simp: scan_exponent_def)
    next
      case (Cons x r')
      show ?thesis
      proof (cases "x = CHR ''+'' \<or> x = CHR ''-''")
        case True
        with assms(1) \<open>s = c # r\<close> \<open>c = CHR ''e'' \<or> c = CHR ''E''\<close> Cons show ?thesis
          by (auto simp: scan_exponent_def Let_def dt split: if_splits)
      next
        case False
        with assms(1) \<open>s = c # r\<close> \<open>c = CHR ''e'' \<or> c = CHR ''E''\<close> Cons
          dt [of "x # r'"] show ?thesis
          by (auto simp: scan_exponent_def Let_def split: if_splits)
      qed
    qed
  qed
qed

lemma scan_unsigned_digits_only:
  assumes "take 8 s \<noteq> ''Infinity''" and "dropWhile is_digit s = []"
  shows "scan_unsigned s
         = (if takeWhile is_digit s = [] then None
            else (case scan_exponent [] of
                    (ex, r3) \<Rightarrow> Some (Decimal_lit (takeWhile is_digit s) [] ex, r3)))"
  unfolding scan_unsigned_def Let_def assms(2) using assms(1) by simp

lemma scan_unsigned_with_fraction:
  assumes "take 8 s \<noteq> ''Infinity''" and "dropWhile is_digit s = c # r"
    and "c = CHR ''.'' \<and> (takeWhile is_digit s \<noteq> [] \<or> takeWhile is_digit r \<noteq> [])"
  shows "scan_unsigned s
         = (case scan_exponent (dropWhile is_digit r) of
              (ex, r3) \<Rightarrow> Some (Decimal_lit (takeWhile is_digit s) (takeWhile is_digit r) ex, r3))"
  unfolding scan_unsigned_def Let_def assms(2) using assms(1,3) by auto

lemma scan_unsigned_without_fraction:
  assumes "take 8 s \<noteq> ''Infinity''" and "dropWhile is_digit s = c # r"
    and "\<not> (c = CHR ''.'' \<and> (takeWhile is_digit s \<noteq> [] \<or> takeWhile is_digit r \<noteq> []))"
  shows "scan_unsigned s
         = (if takeWhile is_digit s = [] then None
            else (case scan_exponent (c # r) of
                    (ex, r3) \<Rightarrow> Some (Decimal_lit (takeWhile is_digit s) [] ex, r3)))"
  unfolding scan_unsigned_def Let_def assms(2) using assms(1,3) by auto

lemma scan_unsigned_start:
  assumes "scan_unsigned p = Some (l, rest)" and "take 8 p \<noteq> ''Infinity''"
  shows "\<exists>c r. p = c # r \<and> (is_digit c \<or> c = CHR ''.'')"
proof (cases p)
  case Nil
  with assms show ?thesis
    by (simp add: scan_unsigned_def)
next
  case (Cons c r)
  show ?thesis
  proof (cases "is_digit c \<or> c = CHR ''.''")
    case True
    with Cons show ?thesis by blast
  next
    case False
    then have "dropWhile is_digit p = c # r" "takeWhile is_digit p = []"
      by (simp_all add: Cons)
    with scan_unsigned_without_fraction [OF assms(2), of c r] False
    have "scan_unsigned p = None" by simp
    with assms(1) show ?thesis by simp
  qed
qed

lemma scan_unsigned_tail:
  assumes "scan_unsigned p = Some (l, [])" and "non_numeric_tail t"
  shows "scan_unsigned (p @ t) = Some (l, t)"
proof (cases "take 8 p = ''Infinity''")
  case True
  with assms(1) have "l = Infinity_lit" "drop 8 p = []"
    by (simp_all add: scan_unsigned_def)
  with True have "p = ''Infinity''"
    using append_take_drop_id [of 8 p] by simp
  with \<open>l = Infinity_lit\<close> show ?thesis
    by (simp add: scan_unsigned_def)
next
  case False
  note dt = digits_then_tail [OF assms(2)]
  from scan_unsigned_start [OF assms(1) False] obtain c0 r0 where
    p: "p = c0 # r0" and c0: "is_digit c0 \<or> c0 = CHR ''.''"
    by blast
  have "c0 \<noteq> CHR ''I''"
    using c0 by (auto simp: is_digit_def)
  then have ni: "take 8 (p @ t) \<noteq> ''Infinity''"
    by (simp add: p)
  define I where "I = takeWhile is_digit p"
  define D where "D = dropWhile is_digit p"
  have I': "takeWhile is_digit (p @ t) = I"
    by (simp add: dt I_def)
  have D': "dropWhile is_digit (p @ t) = D @ t"
    by (simp add: dt D_def)
  have se: "scan_exponent t = (0, t)"
    using assms(2) by (cases t) (simp_all add: non_numeric_tail_def scan_exponent_def)
  show ?thesis
  proof (cases D)
    case Nil
    from scan_unsigned_digits_only [OF False Nil [unfolded D_def]] assms(1)
    have l: "l = Decimal_lit I [] 0" and i: "I \<noteq> []"
      by (auto simp: I_def scan_exponent_def split: if_splits)
    show ?thesis
    proof (cases t)
      case Nil
      with assms(1) show ?thesis by simp
    next
      case (Cons c r)
      with assms(2) have c: "c \<noteq> CHR ''.''"
        by (simp add: non_numeric_tail_def)
      have d: "dropWhile is_digit (p @ t) = c # r"
        using D' \<open>D = []\<close> Cons by simp
      have se': "scan_exponent (c # r) = (0, t)"
        using se Cons by simp
      from c have "\<not> (c = CHR ''.'' \<and> (takeWhile is_digit (p @ t) \<noteq> []
              \<or> takeWhile is_digit r \<noteq> []))"
        by simp
      from scan_unsigned_without_fraction [OF ni d this]
      show ?thesis
        by (simp add: I' i se' l)
    qed
  next
    case (Cons c r)
    have Dt: "dropWhile is_digit (p @ t) = c # (r @ t)"
      using D' Cons by simp
    show ?thesis
    proof (cases "c = CHR ''.'' \<and> (I \<noteq> [] \<or> takeWhile is_digit r \<noteq> [])")
      case True
      from scan_unsigned_with_fraction [OF False Cons [unfolded D_def]] True assms(1)
      obtain ex where
        ex: "scan_exponent (dropWhile is_digit r) = (ex, [])"
        and l: "l = Decimal_lit I (takeWhile is_digit r) ex"
        by (auto simp: I_def split: prod.splits)
      have "c = CHR ''.'' \<and> (takeWhile is_digit (p @ t) \<noteq> []
              \<or> takeWhile is_digit (r @ t) \<noteq> [])"
        using True by (simp add: dt I_def)
      from scan_unsigned_with_fraction [OF ni Dt this]
      show ?thesis
        by (simp add: dt I_def scan_exponent_tail [OF ex assms(2)] l)
    next
      case F: False
      from scan_unsigned_without_fraction [OF False Cons [unfolded D_def]] F assms(1)
      obtain ex where
        ex: "scan_exponent (c # r) = (ex, [])"
        and l: "l = Decimal_lit I [] ex"
        and i: "I \<noteq> []"
        by (auto simp: I_def split: prod.splits if_splits)
      have "\<not> (c = CHR ''.'' \<and> (takeWhile is_digit (p @ t) \<noteq> []
              \<or> takeWhile is_digit (r @ t) \<noteq> []))"
        using F by (simp add: dt I_def)
      from scan_unsigned_without_fraction [OF ni Dt this]
        scan_exponent_tail [OF ex assms(2)] i
      show ?thesis
        by (simp add: dt I_def l)
    qed
  qed
qed

lemma scan_literal_tail:
  assumes "scan_literal p = Some (sg, l, [])" and "non_numeric_tail t"
  shows "scan_literal (p @ t) = Some (sg, l, t)"
proof (cases p)
  case Nil
  with assms(1) show ?thesis
    by (simp add: scan_literal_def)
next
  case (Cons c r)
  show ?thesis
  proof (cases "c = CHR ''-'' \<or> c = CHR ''+''")
    case True
    with assms(1) Cons have "scan_unsigned r = Some (l, [])" and "sg = (c = CHR ''-'')"
      by (auto simp: scan_literal_def split: if_splits)
    with scan_unsigned_tail [OF _ assms(2), of r l] True Cons show ?thesis
      by (auto simp: scan_literal_def)
  next
    case False
    with assms(1) Cons have "scan_unsigned p = Some (l, [])" and "\<not> sg"
      by (auto simp: scan_literal_def)
    with scan_unsigned_tail [OF _ assms(2), of p l] False Cons show ?thesis
      by (auto simp: scan_literal_def)
  qed
qed

lemma trim_start_literal:
  assumes "c = CHR ''-'' \<or> c = CHR ''+'' \<or> c = CHR ''I'' \<or> c = CHR ''.'' \<or> is_digit c"
  shows "trim_start (c # r) = c # r"
proof -
  have "\<not> is_ascii_space c" "c \<noteq> CHR 0xC2" "\<not> is_space3 c x y" for x y
    using assms by (auto simp: is_ascii_space_def is_space3_def is_digit_def)
  then show ?thesis
    by (simp split: list.splits)
qed

lemma numeric_text_no_space:
  assumes "numeric_text p"
  shows "trim_start (p @ t) = p @ t"
proof (cases p)
  case Nil
  with assms show ?thesis
    by (simp add: numeric_text_def scan_literal_def)
next
  case (Cons c r)
  have "c = CHR ''-'' \<or> c = CHR ''+'' \<or> c = CHR ''I'' \<or> c = CHR ''.'' \<or> is_digit c"
  proof (rule ccontr)
    assume "\<not> ?thesis"
    then have "c \<noteq> CHR ''-''" "c \<noteq> CHR ''+''" "c \<noteq> CHR ''I''" "c \<noteq> CHR ''.''" "\<not> is_digit c"
      by simp_all
    then have "scan_literal p = None"
      by (simp add: Cons scan_literal_def scan_unsigned_def)
    with assms show False
      by (simp add: numeric_text_def)
  qed
  then show ?thesis
    using trim_start_literal [of c "r @ t"] by (simp add: Cons)
qed

lemma literal_value_not_NaN: "literal_value sg l \<noteq> NaN"
proof (cases l)
  case Infinity_lit
  then show ?thesis
    by (simp add: literal_value_def neg_def)
next
  case (Decimal_lit ip fp ex)
  have "neg (round_to_double q) \<noteq> NaN" for q
    using round_to_double_not_NaN [of q] by (cases "round_to_double q") (simp_all add: neg_def)
  then show ?thesis
    using round_to_double_not_NaN by (simp add: Decimal_lit literal_value_def Let_def)
qed

lemma parseFloat_numeric_prefix:
  assumes "numeric_text p" and "non_numeric_tail t"
  shows "parseFloat (JStr (p @ t)) = parseFloat (JStr p)" and "parseFloat (JStr p) \<noteq> NaN"
proof -
  from assms(1) obtain sg l where s: "scan_literal p = Some (sg, l, [])"
    by (auto simp: numeric_text_def split: option.splits)
  note s' = scan_literal_tail [OF s assms(2)]
  have "trim_start p = p"
    using numeric_text_no_space [OF assms(1), of "[]"] by simp
  then have v: "parseFloat (JStr p) = literal_value sg l"
    by (simp add: parseFloat_def parse_float_text_def s)
  moreover have "parseFloat (JStr (p @ t)) = literal_value sg l"
    by (simp add: parseFloat_def parse_float_text_def numeric_text_no_space [OF assms(1)] s')
  ultimately show "parseFloat (JStr (p @ t)) = parseFloat (JStr p)"
    by simp
  show "parseFloat (JStr p) \<noteq> NaN"
    using v literal_value_not_NaN by simp
qed

text \<open>
  C9.  A text made of a complete decimal literal \<open>p\<close> and a tail that cannot continue
  it (such as \<open>12abc\<close> or \<open>3.5 kg\<close>) is read as the number of \<open>p\<close>, which is not NaN:
  each of the four formatting functions returns on it what it returns on that number,
  and the pass formats an element with that text as it formats one whose text is \<open>p\<close>.
  On \<open>12abc\<close> and on \<open>3.5 kg\<close> each function, and the pass, gives the text of 12 and
  of 3.5, which is not the text it gives for 0.
\<close>

theorem numeric_prefix_is_read:
  assumes "numeric_text p" and "non_numeric_tail t"
  shows "parseFloat (JStr p) \<noteq> NaN
       \<and> parseFloat (JStr (p @ t)) = parseFloat (JStr p)
       \<and> formatoNumero (JStr (p @ t)) d = formatoNumero (JNum (parseFloat (JStr p))) d
       \<and> formatoMoneda (JStr (p @ t)) s d = formatoMoneda (JNum (parseFloat (JStr p))) s d
       \<and> formatoPorcentaje (JStr (p @ t)) d = formatoPorcentaje (JNum (parseFloat (JStr p))) d
       \<and> formatoCompacto (JStr (p @ t)) = formatoCompacto (JNum (parseFloat (JStr p)))
       \<and> (recognized (getAttribute e ''data-format'') \<longrightarrow>
            formatear_elemento (e\<lparr>textContent := p @ t\<rparr>)
            = formatear_elemento (e\<lparr>textContent := p\<rparr>))
       \<and> parseFloat (JStr ''12abc'') = Fin 12 \<and> parseFloat (JStr ''3.5 kg'') = Fin (7 / 2)
       \<and> formatoNumero (JStr ''12abc'') None = Inr ''12''
       \<and> formatoNumero (JStr ''3.5 kg'') (Some (Fin 1)) = Inr ''3,5''
       \<and> formatoNumero (JNum (Fin 0)) None = Inr ''0''
       \<and> formatoNumero (JNum (Fin 0)) (Some (Fin 1)) = Inr ''0,0''
       \<and> formatoMoneda (JStr ''12abc'') None None = Inr ''$12''
       \<and> formatoMoneda (JStr ''3.5 kg'') (Some ''$'') (Some (Fin 1)) = Inr ''$3,5''
       \<and> formatoMoneda (JNum (Fin 0)) None None = Inr ''$0''
       \<and> formatoMoneda (JNum (Fin 0)) (Some ''$'') (Some (Fin 1)) = Inr ''$0,0''
       \<and> formatoPorcentaje (JStr ''12abc'') None = Inr ''12,0%''
       \<and> formatoPorcentaje (JStr ''3.5 kg'') None = Inr ''3,5%''
       \<and> formatoPorcentaje (JNum (Fin 0)) None = Inr ''0,0%''
       \<and> formatoCompacto (JStr ''12abc'') = Inr ''12''
       \<and> formatoCompacto (JStr ''3.5 kg'') = Inr ''3.5''
       \<and> formatoCompacto (JNum (Fin 0)) = Inr ''0''
       \<and> formatearElementos (Element 0 [(''data-format'', ''moneda'')] [Text ''12abc''])
           = Inr [Element 0 [(''data-format'', ''moneda'')] [Text ''$12'']]
       \<and> formatearElementos (Element 0 [(''data-format'', ''compacto'')] [Text ''3.5 kg''])
           = Inr [Element 0 [(''data-format'', ''compacto'')] [Text ''3.5'']]
       \<and> formatearElementos (Element 0 [(''data-format'', ''moneda'')] [Text ''0''])
           = Inr [Element 0 [(''data-format'', ''moneda'')] [Text ''$0'']]
       \<and> formatear_elemento \<lparr>attributes = [(''data-format'', ''numero'')], textContent = ''12abc''\<rparr>
           = Inr \<lparr>attributes = [(''data-format'', ''numero'')], textContent = ''12''\<rparr>
       \<and> formatear_elemento \<lparr>attributes = [(''data-format'', ''numero'')], textContent = ''0''\<rparr>
           = Inr \<lparr>attributes = [(''data-format'', ''numero'')], textContent = ''0''\<rparr>"
proof -
  note pf = parseFloat_numeric_prefix [OF assms]
  have "parseFloat (JNum y) = y" for y
    by (simp add: parseFloat_def)
  then have c: "or_zero (parseFloat (JStr (p @ t)))
                = or_zero (parseFloat (JNum (parseFloat (JStr p))))"
    by (simp add: pf(1))
  have "formatear_elemento (e\<lparr>textContent := p @ t\<rparr>) = formatear_elemento (e\<lparr>textContent := p\<rparr>)"
    if "recognized (getAttribute e ''data-format'')"
    using that
    by (auto simp: formatear_elemento_def texto_formateado_def recognized_def getAttribute_def
        pf(1) Let_def split: sum.splits)
  then have general: "parseFloat (JStr p) \<noteq> NaN
       \<and> parseFloat (JStr (p @ t)) = parseFloat (JStr p)
       \<and> formatoNumero (JStr (p @ t)) d = formatoNumero (JNum (parseFloat (JStr p))) d
       \<and> formatoMoneda (JStr (p @ t)) s d = formatoMoneda (JNum (parseFloat (JStr p))) s d
       \<and> formatoPorcentaje (JStr (p @ t)) d = formatoPorcentaje (JNum (parseFloat (JStr p))) d
       \<and> formatoCompacto (JStr (p @ t)) = formatoCompacto (JNum (parseFloat (JStr p)))
       \<and> (recognized (getAttribute e ''data-format'') \<longrightarrow>
            formatear_elemento (e\<lparr>textContent := p @ t\<rparr>)
            = formatear_elemento (e\<lparr>textContent := p\<rparr>))"
    using pf formatoNumero_coerced [OF c] formatoMoneda_coerced [OF c]
      formatoPorcentaje_coerced [OF c] formatoCompacto_coerced [OF c]
    by blast
  have v: "parseFloat (JStr ''12abc'') = Fin 12" "parseFloat (JStr ''3.5 kg'') = Fin (7 / 2)"
    by (simp_all add: eval_defs split del: if_split)
  have n: "formatoNumero (JStr ''12abc'') None = Inr ''12''"
    "formatoNumero (JStr ''3.5 kg'') (Some (Fin 1)) = Inr ''3,5''"
    "formatoNumero (JNum (Fin 0)) None = Inr ''0''"
    "formatoNumero (JNum (Fin 0)) (Some (Fin 1)) = Inr ''0,0''"
    by (simp_all add: formatoNumero_def eval_defs split del: if_split)
  have m: "formatoMoneda (JStr ''12abc'') None None = Inr ''$12''"
    "formatoMoneda (JStr ''3.5 kg'') (Some ''$'') (Some (Fin 1)) = Inr ''$3,5''"
    "formatoMoneda (JNum (Fin 0)) None None = Inr ''$0''"
    "formatoMoneda (JNum (Fin 0)) (Some ''$'') (Some (Fin 1)) = Inr ''$0,0''"
    by (simp_all add: formatoMoneda_def formatoNumero_def eval_defs split del: if_split)
  have q: "formatoPorcentaje (JStr ''12abc'') None = Inr ''12,0%''"
    "formatoPorcentaje (JStr ''3.5 kg'') None = Inr ''3,5%''"
    "formatoPorcentaje (JNum (Fin 0)) None = Inr ''0,0%''"
    by (simp_all add: formatoPorcentaje_def eval_defs split del: if_split)
  have k: "formatoCompacto (JStr ''12abc'') = Inr ''12''"
    "formatoCompacto (JStr ''3.5 kg'') = Inr ''3.5''"
    "formatoCompacto (JNum (Fin 0)) = Inr ''0''"
    by (simp_all add: formatoCompacto_def eval_defs split del: if_split)
  have f: "formatearElementos (Element 0 [(''data-format'', ''moneda'')] [Text ''12abc''])
           = Inr [Element 0 [(''data-format'', ''moneda'')] [Text ''$12'']]"
    "formatearElementos (Element 0 [(''data-format'', ''compacto'')] [Text ''3.5 kg''])
           = Inr [Element 0 [(''data-format'', ''compacto'')] [Text ''3.5'']]"
    "formatearElementos (Element 0 [(''data-format'', ''moneda'')] [Text ''0''])
           = Inr [Element 0 [(''data-format'', ''moneda'')] [Text ''$0'']]"
    by (simp_all add: pass_defs formatoMoneda_def formatoNumero_def formatoCompacto_def eval_defs
        split del: if_split)
  have g: "formatear_elemento \<lparr>attributes = [(''data-format'', ''numero'')], textContent = ''12abc''\<rparr>
           = Inr \<lparr>attributes = [(''data-format'', ''numero'')], textContent = ''12''\<rparr>"
    "formatear_elemento \<lparr>attributes = [(''data-format'', ''numero'')], textContent = ''0''\<rparr>
           = Inr \<lparr>attributes = [(''data-format'', ''numero'')], textContent = ''0''\<rparr>"
    by (simp_all add: formatear_elemento_def texto_formateado_def getAttribute_def parseInt_def
        parse_int_text_def formatoNumero_def eval_defs split del: if_split)
  from general v n m q k f g show ?thesis
    by blast
qed

theorem numeric_prefix_is_read_witness:
  "numeric_text ''3.5'' \<and> non_numeric_tail '' kg''
   \<and> parseFloat (JStr ''3.5'') = Fin (7 / 2)
   \<and> parseFloat (JStr ''3.5 kg'') = Fin (7 / 2)
   \<and> formatoNumero (JNum (Fin (7 / 2))) (Some (Fin 1)) = Inr ''3,5''
   \<and> formatoNumero (JStr ''3.5 kg'') (Some (Fin 1)) = Inr ''3,5''
   \<and> formatoMoneda (JNum (Fin (7 / 2))) (Some ''$'') (Some (Fin 1)) = Inr ''$3,5''
   \<and> formatoMoneda (JStr ''3.5 kg'') (Some ''$'') (Some (Fin 1)) = Inr ''$3,5''
   \<and> formatoPorcentaje (JNum (Fin (7 / 2))) (Some (Fin 1)) = Inr ''3,5%''
   \<and> formatoPorcentaje (JStr ''3.5 kg'') (Some (Fin 1)) = Inr ''3,5%''
   \<and> formatoCompacto (JNum (Fin (7 / 2))) = Inr ''3.5''
   \<and> formatoCompacto (JStr ''3.5 kg'') = Inr ''3.5''
   \<and> recognized (getAttribute \<lparr>attributes = [(''data-format'', ''porcentaje'')],
                               textContent = []\<rparr> ''data-format'')
   \<and> formatear_elemento \<lparr>attributes = [(''data-format'', ''porcentaje'')], textContent = ''3.5''\<rparr>
       = Inr \<lparr>attributes = [(''data-format'', ''porcentaje'')], textContent = ''4%''\<rparr>
   \<and> formatear_elemento \<lparr>attributes = [(''data-format'', ''porcentaje'')], textContent = ''3.5 kg''\<rparr>
       = Inr \<lparr>attributes = [(''data-format'', ''porcentaje'')], textContent = ''4%''\<rparr>"
proof -
  let ?e = "\<lparr>attributes = [(''data-format'', ''porcentaje'')], textContent = []\<rparr>"
  have b: "numeric_text ''3.5''" "non_numeric_tail '' kg''"
    by (simp_all add: numeric_text_def non_numeric_tail_def scan_defs Let_def split del: if_split)
  have v: "parseFloat (JStr ''3.5'') = Fin (7 / 2)"
    by (simp add: eval_defs split del: if_split)
  have n: "formatoNumero (JNum (Fin (7 / 2))) (Some (Fin 1)) = Inr ''3,5''"
    by (simp add: formatoNumero_def eval_defs split del: if_split)
  have m: "formatoMoneda (JNum (Fin (7 / 2))) (Some ''$'') (Some (Fin 1)) = Inr ''$3,5''"
    by (simp add: formatoMoneda_def formatoNumero_def eval_defs split del: if_split)
  have q: "formatoPorcentaje (JNum (Fin (7 / 2))) (Some (Fin 1)) = Inr ''3,5%''"
    by (simp add: formatoPorcentaje_def eval_defs split del: if_split)
  have k: "formatoCompacto (JNum (Fin (7 / 2))) = Inr ''3.5''"
    by (simp add: formatoCompacto_def eval_defs split del: if_split)
  have r: "recognized (getAttribute ?e ''data-format'')"
    by (simp add: recognized_def getAttribute_def)
  have f: "formatear_elemento (?e\<lparr>textContent := ''3.5''\<rparr>)
           = Inr \<lparr>attributes = [(''data-format'', ''porcentaje'')], textContent = ''4%''\<rparr>"
    by (simp add: formatear_elemento_def texto_formateado_def getAttribute_def parseInt_def
        parse_int_text_def formatoPorcentaje_def eval_defs split del: if_split)
  from numeric_prefix_is_read [OF b, of "Some (Fin 1)" "Some ''$''" ?e] b v n m q k r f
  show ?thesis by simp
qed

end
